theory Spec2Isabelle
  imports Complex_Main
begin

section \<open>The Tpetra sparse matrix wrapper of deal.II\<close>

text \<open>
  The development embeds \<^verbatim>\<open>include/deal.II/lac/trilinos_tpetra_sparse_matrix.templates.h\<close>:
  the class \<^verbatim>\<open>LinearAlgebra::TpetraWrappers::SparseMatrix\<close>, a thin layer over
  \<^verbatim>\<open>Tpetra::CrsMatrix\<close>. The wrapper keeps three members: the column space map, the
  Tpetra matrix and the flag \<^verbatim>\<open>compressed\<close>. Every member function is a HOL function
  from the state before the call to an error or the state after it.
\<close>

subsection \<open>Scalars\<close>

text \<open>
  \<^verbatim>\<open>Number\<close> is a floating point type. The functions read a scalar in four ways only:
  whether it is finite, whether it is zero, whether its magnitude exceeds a tolerance, and
  as an operand of the sums and products of the matrix-vector matrix_vector_product. The model keeps
  the three kinds of floating point value apart and takes the finite ones as rationals:
  rounding is not part of it.
\<close>

datatype number = Finite rat | PosInf | NegInf | NaN

fun is_finite :: "number \<Rightarrow> bool" where
  "is_finite (Finite r) = True"
| "is_finite PosInf = False"
| "is_finite NegInf = False"
| "is_finite NaN = False"

fun fabs :: "number \<Rightarrow> number" where
  "fabs (Finite r) = Finite \<bar>r\<bar>"
| "fabs PosInf = PosInf"
| "fabs NegInf = PosInf"
| "fabs NaN = NaN"

text \<open>The comparison \<^verbatim>\<open>a > b\<close>: false as soon as one side is not a number.\<close>

fun greater_than :: "number \<Rightarrow> number \<Rightarrow> bool" where
  "greater_than NaN b = False"
| "greater_than a NaN = False"
| "greater_than (Finite a) (Finite b) = (b < a)"
| "greater_than (Finite a) PosInf = False"
| "greater_than (Finite a) NegInf = True"
| "greater_than PosInf PosInf = False"
| "greater_than PosInf b = True"
| "greater_than NegInf b = False"

fun nadd :: "number \<Rightarrow> number \<Rightarrow> number" where
  "nadd NaN b = NaN"
| "nadd a NaN = NaN"
| "nadd (Finite a) (Finite b) = Finite (a + b)"
| "nadd PosInf NegInf = NaN"
| "nadd NegInf PosInf = NaN"
| "nadd PosInf b = PosInf"
| "nadd NegInf b = NegInf"
| "nadd a PosInf = PosInf"
| "nadd a NegInf = NegInf"

fun nneg :: "number \<Rightarrow> number" where
  "nneg (Finite a) = Finite (- a)"
| "nneg PosInf = NegInf"
| "nneg NegInf = PosInf"
| "nneg NaN = NaN"

fun nmul :: "number \<Rightarrow> number \<Rightarrow> number" where
  "nmul NaN b = NaN"
| "nmul a NaN = NaN"
| "nmul (Finite a) (Finite b) = Finite (a * b)"
| "nmul (Finite a) b = (if a = 0 then NaN else if 0 < a then b else nneg b)"
| "nmul a (Finite b) = (if b = 0 then NaN else if 0 < b then a else nneg a)"
| "nmul PosInf b = b"
| "nmul NegInf b = nneg b"

subsection \<open>Errors\<close>

text \<open>
  Modelled from the spec: the macros \<^verbatim>\<open>Assert\<close>, \<^verbatim>\<open>AssertIndexRange\<close>,
  \<^verbatim>\<open>AssertDimension\<close> and \<^verbatim>\<open>AssertIsFinite\<close> are declared in
  \<^verbatim>\<open>deal.II/base/exceptions.h\<close>, which is not among the sources. The spec makes every
  violated precondition fatal and checked eagerly, so a failing assertion ends the call
  with the exception it names and leaves no new state. \<^verbatim>\<open>OutOfBounds\<close> stands for a read
  or write past the end of an array, which C++ leaves undefined.
\<close>

datatype error =
    ExcIndexRange
  | ExcDimensionMismatch
  | ExcNumberNotFinite
  | ExcSourceEqualsDestination
  | ExcMatrixNotCompressed
  | ExcColMapMissmatch
  | ExcDomainMapMissmatch
  | ExcAccessToNonLocalElement
  | ExcInvalidIndex
  | ExcInvalidIterator
  | ExcGraphNotFillComplete
  | NullReference
  | OutOfBounds

subsection \<open>Tpetra maps\<close>

text \<open>
  A communicator as one process sees it: the communicator of the process alone, or a
  handle together with the rank the process has in it.
\<close>

datatype mpi_comm = MPI_COMM_SELF | MPI_Comm nat nat

fun getRank :: "mpi_comm \<Rightarrow> nat" where
  "getRank MPI_COMM_SELF = 0"
| "getRank (MPI_Comm handle rank) = rank"

text \<open>
  A \<^verbatim>\<open>Tpetra::Map\<close> as one process sees it: the global number of elements, the global
  indices the process owns, in local order, and the communicator.
\<close>

record tpetra_map =
  global_num_elements :: nat
  my_gids :: "int list"
  map_comm :: mpi_comm

text \<open>\<^verbatim>\<open>Map(n, 0, comm)\<close> on the communicator of one process: all of \<open>0..n-1\<close> is local.\<close>

definition contiguous_map :: "nat \<Rightarrow> mpi_comm \<Rightarrow> tpetra_map" where
  "contiguous_map n c =
     \<lparr>global_num_elements = n, my_gids = map int [0..<n], map_comm = c\<rparr>"

text \<open>
  \<^verbatim>\<open>getLocalElement\<close>: the position of a global index among the owned ones, or
  \<^verbatim>\<open>Teuchos::OrdinalTraits<int>::invalid()\<close>, which is \<open>-1\<close>.
\<close>

fun position :: "int \<Rightarrow> int list \<Rightarrow> int \<Rightarrow> int" where
  "position g [] k = -1"
| "position g (x # xs) k = (if x = g then k else position g xs (k + 1))"

definition getLocalElement :: "tpetra_map \<Rightarrow> int \<Rightarrow> int" where
  "getLocalElement mp g = position g (my_gids mp) 0"

text \<open>\<^verbatim>\<open>isSameAs\<close>: the two maps describe the same distribution.\<close>

definition isSameAs :: "tpetra_map \<Rightarrow> tpetra_map \<Rightarrow> bool" where
  "isSameAs a b = (a = b)"

subsection \<open>Tpetra graphs and matrices\<close>

text \<open>
  The fill state of a graph or matrix. \<^verbatim>\<open>fillComplete\<close> fixes the domain and the range
  map; they are read only from a fill-complete object.
\<close>

datatype fill_state = FillActive | FillComplete tpetra_map tpetra_map

record crs_graph =
  g_row_map :: tpetra_map
  g_col_map :: "tpetra_map option"
  g_indices :: "(int \<times> int) list"
  g_fill :: fill_state

text \<open>
  A \<^verbatim>\<open>Tpetra::CrsMatrix\<close>: the stored entries are triples of global row, global column
  and value, in the order of insertion. \<open>static_graph\<close> says that the matrix was built on
  a constant graph, so its structure cannot grow.
\<close>

record crs_matrix =
  row_map :: tpetra_map
  col_map :: "tpetra_map option"
  entries :: "(int \<times> int \<times> number) list"
  static_graph :: bool
  fill :: fill_state

definition isFillComplete :: "crs_matrix \<Rightarrow> bool" where
  "isFillComplete A = (fill A \<noteq> FillActive)"

definition isStaticGraph :: "crs_matrix \<Rightarrow> bool" where
  "isStaticGraph A = static_graph A"

text \<open>The structure of a matrix: the positions it stores, without the values.\<close>

definition structure_of :: "crs_matrix \<Rightarrow> (int \<times> int) list" where
  "structure_of A = map (\<lambda>(r, c, v). (r, c)) (entries A)"

text \<open>
  The column map a graph or matrix builds for itself at \<^verbatim>\<open>fillComplete\<close> when it was
  given none: the owned indices of the domain map that occur as columns, then the other
  columns.
\<close>

definition makeColMap :: "tpetra_map \<Rightarrow> int list \<Rightarrow> tpetra_map" where
  "makeColMap dmap cs =
     dmap\<lparr>my_gids := filter (\<lambda>g. g \<in> set cs) (my_gids dmap)
                      @ remdups (filter (\<lambda>c. c \<notin> set (my_gids dmap)) cs)\<rparr>"

definition graph_fillComplete :: "tpetra_map \<Rightarrow> tpetra_map \<Rightarrow> crs_graph \<Rightarrow> crs_graph" where
  "graph_fillComplete dmap rmap g =
     g\<lparr>g_col_map := (case g_col_map g of
                        Some c \<Rightarrow> Some c
                      | None \<Rightarrow> Some (makeColMap dmap (map snd (g_indices g)))),
       g_fill := FillComplete dmap rmap\<rparr>"

text \<open>
  \<^verbatim>\<open>CrsMatrix(graph)\<close>: the matrix takes the structure of a fill-complete graph, with
  every value zero. It is a matrix on a static graph, and it is not fill-complete itself.
  Tpetra throws when the graph is not fill-complete.
\<close>

definition matrix_from_graph :: "crs_graph \<Rightarrow> error + crs_matrix" where
  "matrix_from_graph g =
     (case g_fill g of
        FillActive \<Rightarrow> Inl ExcGraphNotFillComplete
      | FillComplete dmap rmap \<Rightarrow>
          Inr \<lparr>row_map = g_row_map g, col_map = g_col_map g,
               entries = map (\<lambda>(r, c). (r, c, Finite 0)) (g_indices g),
               static_graph = True, fill = FillActive\<rparr>)"

text \<open>
  \<^verbatim>\<open>fillComplete(domain, range)\<close> and \<^verbatim>\<open>resumeFill()\<close>. Tpetra also sorts the rows
  of a matrix that owns its graph and adds up entries at the same position; nothing below
  reads the order of a row, and the model keeps the entries as they are.
\<close>

definition fillComplete :: "tpetra_map \<Rightarrow> tpetra_map \<Rightarrow> crs_matrix \<Rightarrow> crs_matrix" where
  "fillComplete dmap rmap A =
     A\<lparr>col_map := (case col_map A of
                      Some c \<Rightarrow> Some c
                    | None \<Rightarrow> Some (makeColMap dmap (map (\<lambda>(r, c, v). c) (entries A)))),
       fill := FillComplete dmap rmap\<rparr>"

definition resumeFill :: "crs_matrix \<Rightarrow> crs_matrix" where
  "resumeFill A = A\<lparr>fill := FillActive\<rparr>"

subsection \<open>The wrapper class\<close>

record sparse_matrix =
  column_space_map :: tpetra_map
  matrix :: crs_matrix
  compressed :: bool

text \<open>
  Modelled from the spec: \<^verbatim>\<open>m()\<close> and \<^verbatim>\<open>n()\<close> are defined in
  \<^verbatim>\<open>trilinos_tpetra_sparse_matrix.h\<close>, which is not among the sources: the global number
  of rows, from the row map, and of columns, from the column space map.
\<close>

definition m_size :: "sparse_matrix \<Rightarrow> nat" where
  "m_size M = global_num_elements (row_map (matrix M))"

definition n_size :: "sparse_matrix \<Rightarrow> nat" where
  "n_size M = global_num_elements (column_space_map M)"

text \<open>The two members every constructor of an empty matrix builds (lines 309-322, 1086-1097).\<close>

definition empty_graph :: crs_graph where
  "empty_graph =
     (let csm = contiguous_map 0 MPI_COMM_SELF
      in graph_fillComplete csm csm
           \<lparr>g_row_map = csm, g_col_map = Some csm, g_indices = [], g_fill = FillActive\<rparr>)"

definition SparseMatrix_default :: "error + sparse_matrix" where
  "SparseMatrix_default =
     (case matrix_from_graph empty_graph of
        Inl e \<Rightarrow> Inl e
      | Inr A \<Rightarrow>
          Inr \<lparr>column_space_map = contiguous_map 0 MPI_COMM_SELF,
               matrix = A, compressed = False\<rparr>)"

definition clear :: "sparse_matrix \<Rightarrow> error + sparse_matrix" where
  "clear M =
     (case matrix_from_graph empty_graph of
        Inl e \<Rightarrow> Inl e
      | Inr A \<Rightarrow>
          Inr \<lparr>column_space_map = contiguous_map 0 MPI_COMM_SELF,
               matrix = A, compressed = True\<rparr>)"

definition compress :: "sparse_matrix \<Rightarrow> sparse_matrix" where
  "compress M =
     (if \<not> compressed M
      then M\<lparr>matrix := fillComplete (column_space_map M) (row_map (matrix M)) (matrix M),
             compressed := True\<rparr>
      else M)"

definition resume_fill :: "sparse_matrix \<Rightarrow> sparse_matrix" where
  "resume_fill M =
     (if compressed M
      then M\<lparr>matrix := resumeFill (matrix M), compressed := False\<rparr>
      else M)"

text \<open>
  Modelled from the spec: \<^verbatim>\<open>TpetraWrappers::SparsityPattern\<close> is declared in
  \<^verbatim>\<open>trilinos_tpetra_sparsity_pattern.h\<close>, which is not among the sources. The constructor
  reads two things of it: its graph and its domain partitioner, the column partitioning
  of that graph.
\<close>

record tpetra_sparsity_pattern =
  trilinos_sparsity_pattern :: crs_graph

definition domain_partitioner :: "tpetra_sparsity_pattern \<Rightarrow> error + tpetra_map" where
  "domain_partitioner sp =
     (case g_fill (trilinos_sparsity_pattern sp) of
        FillActive \<Rightarrow> Inl NullReference
      | FillComplete dmap rmap \<Rightarrow> Inr dmap)"

text \<open>\<^verbatim>\<open>SparseMatrix(const SparsityPattern &)\<close>, lines 329-339.\<close>

definition SparseMatrix_from_sparsity :: "tpetra_sparsity_pattern \<Rightarrow> error + sparse_matrix" where
  "SparseMatrix_from_sparsity sp =
     (case matrix_from_graph (trilinos_sparsity_pattern sp) of
        Inl e \<Rightarrow> Inl e
      | Inr A \<Rightarrow>
          (case domain_partitioner sp of
             Inl e \<Rightarrow> Inl e
           | Inr dmap \<Rightarrow>
               Inr (compress \<lparr>column_space_map = dmap, matrix = A, compressed = False\<rparr>)))"

text \<open>
  \<^verbatim>\<open>copy_from\<close>, lines 1048-1075. Whether the source is the matrix itself is a question
  of addresses, so the matrices live in a store and the call names two addresses. The
  deep copy takes the Tpetra matrix of the source; the column space map is read back from
  the copy. A source without a column map would leave the column space map null, which
  the record cannot hold: the model ends that call with an error.
\<close>

type_synonym matrix_store = "nat \<Rightarrow> sparse_matrix"

definition copy_from :: "matrix_store \<Rightarrow> nat \<Rightarrow> nat \<Rightarrow> error + matrix_store" where
  "copy_from h this source =
     (if this = source then Inr h
      else (case col_map (matrix (h source)) of
              None \<Rightarrow> Inl NullReference
            | Some cm \<Rightarrow>
                Inr (h(this := \<lparr>column_space_map = cm,
                                matrix = matrix (h source),
                                compressed = compressed (h source)\<rparr>))))"

text \<open>
  \<^verbatim>\<open>SparseMatrix(m, n, n_max_entries_per_row)\<close>, lines 343-360: a matrix on one process
  that owns its graph, with a row map of \<open>m\<close> and a column map of \<open>n\<close> indices and no
  entries yet. The bound on the entries of a row is a hint for the allocation only.
\<close>

definition SparseMatrix_m_n :: "nat \<Rightarrow> nat \<Rightarrow> nat \<Rightarrow> sparse_matrix" where
  "SparseMatrix_m_n mm nn n_max_entries_per_row =
     \<lparr>column_space_map = contiguous_map nn MPI_COMM_SELF,
      matrix = \<lparr>row_map = contiguous_map mm MPI_COMM_SELF,
                col_map = Some (contiguous_map nn MPI_COMM_SELF),
                entries = [], static_graph = False, fill = FillActive\<rparr>,
      compressed = False\<rparr>"

subsection \<open>Writing entries\<close>

text \<open>
  The three Tpetra calls that write a row. \<^verbatim>\<open>insertGlobalValues\<close> appends the entries to
  the structure. \<^verbatim>\<open>replaceGlobalValues\<close> and \<^verbatim>\<open>sumIntoGlobalValues\<close> change the value
  at a position the row already has and skip a position it has not.
\<close>

fun update_entry ::
  "(number \<Rightarrow> number) \<Rightarrow> int \<Rightarrow> int \<Rightarrow> (int \<times> int \<times> number) list \<Rightarrow> (int \<times> int \<times> number) list"
where
  "update_entry f r c [] = []"
| "update_entry f r c ((r', c', v) # es) =
     (if r' = r \<and> c' = c then (r', c', f v) # es
      else (r', c', v) # update_entry f r c es)"

definition insertGlobalValues :: "crs_matrix \<Rightarrow> int \<Rightarrow> (int \<times> number) list \<Rightarrow> crs_matrix" where
  "insertGlobalValues A r cvs = A\<lparr>entries := entries A @ map (\<lambda>(c, v). (r, c, v)) cvs\<rparr>"

definition replaceGlobalValues :: "crs_matrix \<Rightarrow> int \<Rightarrow> (int \<times> number) list \<Rightarrow> crs_matrix" where
  "replaceGlobalValues A r cvs =
     A\<lparr>entries := fold (\<lambda>(c, v). update_entry (\<lambda>old. v) r c) cvs (entries A)\<rparr>"

definition sumIntoGlobalValues :: "crs_matrix \<Rightarrow> int \<Rightarrow> (int \<times> number) list \<Rightarrow> crs_matrix" where
  "sumIntoGlobalValues A r cvs =
     A\<lparr>entries := fold (\<lambda>(c, v). update_entry (\<lambda>old. nadd old v) r c) cvs (entries A)\<rparr>"

text \<open>
  The arguments \<^verbatim>\<open>n_cols\<close>, \<^verbatim>\<open>col_indices\<close> and \<^verbatim>\<open>values\<close>: two arrays of which the
  first \<open>n_cols\<close> elements are read, as pairs of a column and a value.
\<close>

definition read_arrays :: "nat \<Rightarrow> nat list \<Rightarrow> number list \<Rightarrow> error + (int \<times> number) list" where
  "read_arrays n_cols col_indices values =
     (if n_cols \<le> length col_indices \<and> n_cols \<le> length values
      then Inr (zip (map int (take n_cols col_indices)) (take n_cols values))
      else Inl OutOfBounds)"

text \<open>
  The loop of \<^verbatim>\<open>set\<close> that elides zeros, lines 892-902: every value is asserted to be
  finite, and the nonzero ones are copied with their columns.
\<close>

fun set_elide :: "(int \<times> number) list \<Rightarrow> error + (int \<times> number) list" where
  "set_elide [] = Inr []"
| "set_elide ((c, v) # xs) =
     (if \<not> is_finite v then Inl ExcNumberNotFinite
      else (case set_elide xs of
              Inl e \<Rightarrow> Inl e
            | Inr ys \<Rightarrow> Inr (if v \<noteq> Finite 0 then (c, v) # ys else ys)))"

text \<open>The state change both \<^verbatim>\<open>set\<close> and \<^verbatim>\<open>add\<close> start from, lines 915-919 and 970-974.\<close>

definition resume_if_filled :: "sparse_matrix \<Rightarrow> sparse_matrix" where
  "resume_if_filled M =
     (if compressed M \<or> isFillComplete (matrix M)
      then M\<lparr>matrix := resumeFill (matrix M), compressed := False\<rparr>
      else M)"

text \<open>\<^verbatim>\<open>set(row, n_cols, col_indices, values, elide_zero_values)\<close>, lines 854-931.\<close>

definition set_row ::
  "sparse_matrix \<Rightarrow> nat \<Rightarrow> nat \<Rightarrow> nat list \<Rightarrow> number list \<Rightarrow> bool \<Rightarrow> error + sparse_matrix"
where
  "set_row M row n_cols col_indices values elide_zero_values =
     (if \<not> row < m_size M then Inl ExcIndexRange
      else
        (case read_arrays n_cols col_indices values of
           Inl e \<Rightarrow> Inl e
         | Inr given \<Rightarrow>
             (case (if elide_zero_values = False then Inr given
                    else (case set_elide given of
                            Inl e \<Rightarrow> Inl e
                          | Inr kept \<Rightarrow>
                              if \<not> length kept < n_cols + 1 then Inl ExcIndexRange
                              else Inr kept)) of
                Inl e \<Rightarrow> Inl e
              | Inr kept \<Rightarrow>
                  (let M1 = resume_if_filled M
                   in if \<not> isStaticGraph (matrix M1)
                      then Inr (M1\<lparr>matrix := insertGlobalValues (matrix M1) (int row) kept\<rparr>)
                      else Inr (M1\<lparr>matrix := replaceGlobalValues (matrix M1) (int row) kept\<rparr>)))))"

text \<open>
  The loop of \<^verbatim>\<open>add\<close> that elides zeros, lines 992-1004, with the number of columns of
  the matrix, the number of zero entries and the counter \<^verbatim>\<open>n_columns\<close>; and the loop
  that keeps every entry, lines 1007-1013.
\<close>

fun add_elide :: "nat \<Rightarrow> nat \<Rightarrow> nat \<Rightarrow> (int \<times> number) list \<Rightarrow> error + (int \<times> number) list" where
  "add_elide nn n_zero_entries n_columns [] = Inr []"
| "add_elide nn n_zero_entries n_columns ((c, v) # xs) =
     (if v \<noteq> Finite 0
      then (if \<not> is_finite v then Inl ExcNumberNotFinite
            else if \<not> (0 \<le> c \<and> c < int nn) then Inl ExcIndexRange
            else if \<not> n_columns < n_zero_entries then Inl ExcIndexRange
            else (case add_elide nn n_zero_entries (n_columns + 1) xs of
                    Inl e \<Rightarrow> Inl e
                  | Inr ys \<Rightarrow> Inr ((c, v) # ys)))
      else add_elide nn n_zero_entries n_columns xs)"

fun add_all :: "nat \<Rightarrow> (int \<times> number) list \<Rightarrow> error + (int \<times> number) list" where
  "add_all nn [] = Inr []"
| "add_all nn ((c, v) # xs) =
     (if \<not> is_finite v then Inl ExcNumberNotFinite
      else if \<not> (0 \<le> c \<and> c < int nn) then Inl ExcIndexRange
      else (case add_all nn xs of
              Inl e \<Rightarrow> Inl e
            | Inr ys \<Rightarrow> Inr ((c, v) # ys)))"

text \<open>
  \<^verbatim>\<open>add(row, n_cols, col_indices, values, elide_zero_values, col_indices_are_sorted)\<close>,
  lines 956-1017. The last argument is not read. The count of the zeros reads the values
  only; the columns are read after the early exit.
\<close>

definition add_row ::
  "sparse_matrix \<Rightarrow> nat \<Rightarrow> nat \<Rightarrow> nat list \<Rightarrow> number list \<Rightarrow> bool \<Rightarrow> error + sparse_matrix"
where
  "add_row M row n_cols col_indices values elide_zero_values =
     (if \<not> row < m_size M then Inl ExcIndexRange
      else
        (let M1 = resume_if_filled M
         in if elide_zero_values \<and> \<not> n_cols \<le> length values then Inl OutOfBounds
            else
              (let n_zero_entries =
                     (if elide_zero_values
                      then count_list (take n_cols values) (Finite 0) else 0)
               in if n_zero_entries = n_cols then Inr M1
                  else
                    (case read_arrays n_cols col_indices values of
                       Inl e \<Rightarrow> Inl e
                     | Inr given \<Rightarrow>
                         (case (if elide_zero_values
                                then add_elide (n_size M1) n_zero_entries 0 given
                                else add_all (n_size M1) given) of
                            Inl e \<Rightarrow> Inl e
                          | Inr kept \<Rightarrow>
                              Inr (M1\<lparr>matrix :=
                                     sumIntoGlobalValues (matrix M1) (int row) kept\<rparr>))))))"

subsection \<open>Reading an element\<close>

text \<open>
  \<^verbatim>\<open>getGlobalElement\<close> is read at a valid local index only.
  \<^verbatim>\<open>getLocalRowCopy\<close> gives the entries of a local row with their columns as local
  indices of the column map; \<^verbatim>\<open>getNumEntriesInLocalRow\<close> is the length of that copy.
\<close>

definition getGlobalElement :: "tpetra_map \<Rightarrow> int \<Rightarrow> int" where
  "getGlobalElement mp k = my_gids mp ! nat k"

definition getLocalRowCopy :: "crs_matrix \<Rightarrow> tpetra_map \<Rightarrow> int \<Rightarrow> (int \<times> number) list" where
  "getLocalRowCopy A cm local_row =
     map (\<lambda>(r, c, v). (getLocalElement cm c, v))
       (filter (\<lambda>(r, c, v). r = getGlobalElement (row_map A) local_row) (entries A))"

text \<open>The search loop of lines 1294-1300: the index of the first column that matches.\<close>

fun scan :: "int list \<Rightarrow> int \<Rightarrow> nat \<Rightarrow> nat" where
  "scan [] trilinos_j local_col_index = local_col_index"
| "scan (c # cs) trilinos_j local_col_index =
     (if c = trilinos_j then local_col_index else scan cs trilinos_j (local_col_index + 1))"

text \<open>
  \<^verbatim>\<open>element(i, j, no_error)\<close>, lines 1252-1313. The column map is read through a
  pointer, which is null for a matrix that was given no column map and has not been
  filled yet.
\<close>

definition element :: "sparse_matrix \<Rightarrow> nat \<Rightarrow> nat \<Rightarrow> bool \<Rightarrow> error + number" where
  "element M i j no_error =
     (case col_map (matrix M) of
        None \<Rightarrow> Inl NullReference
      | Some cm \<Rightarrow>
          (let trilinos_i = getLocalElement (row_map (matrix M)) (int i);
               trilinos_j = getLocalElement cm (int j)
           in if trilinos_i = -1 \<or> trilinos_j = -1
              then (if no_error then Inr (Finite 0) else Inl ExcAccessToNonLocalElement)
              else if \<not> isFillComplete (matrix M) then Inl ExcMatrixNotCompressed
              else
                (let row = getLocalRowCopy (matrix M) cm trilinos_i;
                     nnz_present = length row;
                     local_col_index = scan (map fst row) trilinos_j 0
                 in if local_col_index = nnz_present
                    then (if no_error then Inr (Finite 0) else Inl ExcInvalidIndex)
                    else Inr (snd (row ! local_col_index)))))"

subsection \<open>Multiplications\<close>

text \<open>
  A distributed vector as one process holds it: its map and its local values. The vectors
  of a call are references, and the first assertion compares their addresses, so they
  live in a store.
\<close>

record vector =
  vec_map :: tpetra_map
  vec_vals :: "number list"

type_synonym vector_store = "nat \<Rightarrow> vector"

datatype ETransp = NO_TRANS | TRANS

text \<open>
  \<^verbatim>\<open>CrsMatrix::apply(X, Y, mode, alpha, beta)\<close> computes \<open>Y := beta Y + alpha op(A) X\<close>,
  where \<open>op(A)\<close> is the matrix or its transpose, and overwrites \<open>Y\<close> when \<open>beta\<close> is zero;
  \<open>mode\<close>, \<open>alpha\<close> and \<open>beta\<close> default to no transpose, one and zero. The product is
  the one a single process computes from the entries and the vector values it holds: a
  row of the result for each index of the range map, or of the domain map for the
  transpose.
\<close>

definition x_at :: "vector \<Rightarrow> int \<Rightarrow> number" where
  "x_at X g =
     (case map_of (zip (my_gids (vec_map X)) (vec_vals X)) g of
        Some v \<Rightarrow> v
      | None \<Rightarrow> Finite 0)"

definition nsum :: "number list \<Rightarrow> number" where
  "nsum xs = foldl nadd (Finite 0) xs"

definition matrix_vector_product :: "crs_matrix \<Rightarrow> vector \<Rightarrow> ETransp \<Rightarrow> number list" where
  "matrix_vector_product A X mode =
     (case fill A of
        FillActive \<Rightarrow> []
      | FillComplete dmap rmap \<Rightarrow>
          (case mode of
             NO_TRANS \<Rightarrow>
               map (\<lambda>g. nsum (map (\<lambda>(r, c, v). nmul v (x_at X c))
                                (filter (\<lambda>(r, c, v). r = g) (entries A))))
                 (my_gids rmap)
           | TRANS \<Rightarrow>
               map (\<lambda>g. nsum (map (\<lambda>(r, c, v). nmul v (x_at X r))
                                (filter (\<lambda>(r, c, v). c = g) (entries A))))
                 (my_gids dmap)))"

definition tpetra_apply ::
  "crs_matrix \<Rightarrow> vector \<Rightarrow> vector \<Rightarrow> ETransp \<Rightarrow> number \<Rightarrow> number \<Rightarrow> vector" where
  "tpetra_apply A X Y mode alpha beta =
     Y\<lparr>vec_vals :=
         (if beta = Finite 0 then map (nmul alpha) (matrix_vector_product A X mode)
          else map2 (\<lambda>y p. nadd (nmul beta y) (nmul alpha p)) (vec_vals Y)
                 (matrix_vector_product A X mode))\<rparr>"

text \<open>
  \<^verbatim>\<open>vmult\<close>, \<^verbatim>\<open>Tvmult\<close>, \<^verbatim>\<open>vmult_add\<close> and \<^verbatim>\<open>Tvmult_add\<close>, lines 1106-1180. The
  domain and the range map are read after the assertion that the matrix is fill-complete.
\<close>

definition vmult :: "sparse_matrix \<Rightarrow> vector_store \<Rightarrow> nat \<Rightarrow> nat \<Rightarrow> error + vector_store" where
  "vmult M h dst src =
     (if \<not> src \<noteq> dst then Inl ExcSourceEqualsDestination
      else
        (case fill (matrix M) of
           FillActive \<Rightarrow> Inl ExcMatrixNotCompressed
         | FillComplete dmap rmap \<Rightarrow>
             if \<not> isSameAs (vec_map (h src)) dmap then Inl ExcColMapMissmatch
             else if \<not> isSameAs (vec_map (h dst)) rmap then Inl ExcDomainMapMissmatch
             else Inr (h(dst := tpetra_apply (matrix M) (h src) (h dst) NO_TRANS
                                  (Finite 1) (Finite 0)))))"

definition Tvmult :: "sparse_matrix \<Rightarrow> vector_store \<Rightarrow> nat \<Rightarrow> nat \<Rightarrow> error + vector_store" where
  "Tvmult M h dst src =
     (if \<not> src \<noteq> dst then Inl ExcSourceEqualsDestination
      else
        (case fill (matrix M) of
           FillActive \<Rightarrow> Inl ExcMatrixNotCompressed
         | FillComplete dmap rmap \<Rightarrow>
             if \<not> isSameAs (vec_map (h dst)) dmap then Inl ExcColMapMissmatch
             else if \<not> isSameAs (vec_map (h src)) rmap then Inl ExcDomainMapMissmatch
             else Inr (h(dst := tpetra_apply (matrix M) (h src) (h dst) TRANS
                                  (Finite 1) (Finite 0)))))"

definition vmult_add :: "sparse_matrix \<Rightarrow> vector_store \<Rightarrow> nat \<Rightarrow> nat \<Rightarrow> error + vector_store" where
  "vmult_add M h dst src =
     (if \<not> src \<noteq> dst then Inl ExcSourceEqualsDestination
      else
        (case fill (matrix M) of
           FillActive \<Rightarrow> Inl ExcMatrixNotCompressed
         | FillComplete dmap rmap \<Rightarrow>
             if \<not> isSameAs (vec_map (h src)) dmap then Inl ExcColMapMissmatch
             else if \<not> isSameAs (vec_map (h dst)) rmap then Inl ExcDomainMapMissmatch
             else Inr (h(dst := tpetra_apply (matrix M) (h src) (h dst) NO_TRANS
                                  (Finite 1) (Finite 1)))))"

definition Tvmult_add :: "sparse_matrix \<Rightarrow> vector_store \<Rightarrow> nat \<Rightarrow> nat \<Rightarrow> error + vector_store" where
  "Tvmult_add M h dst src =
     (if \<not> src \<noteq> dst then Inl ExcSourceEqualsDestination
      else
        (case fill (matrix M) of
           FillActive \<Rightarrow> Inl ExcMatrixNotCompressed
         | FillComplete dmap rmap \<Rightarrow>
             if \<not> isSameAs (vec_map (h dst)) dmap then Inl ExcColMapMissmatch
             else if \<not> isSameAs (vec_map (h src)) rmap then Inl ExcDomainMapMissmatch
             else Inr (h(dst := tpetra_apply (matrix M) (h src) (h dst) TRANS
                                  (Finite 1) (Finite 1)))))"

subsection \<open>Reinitialisation from a reference matrix\<close>

text \<open>
  Modelled from the spec: \<^verbatim>\<open>dealii::SparsityPattern\<close> and \<^verbatim>\<open>dealii::SparseMatrix\<close>
  are declared outside these sources. The spec asks of the reference matrix a sorted
  iteration over the columns and values of a row and the shape; the model is the
  compressed row storage behind it: the rows are the segments of \<open>colnums\<close> that \<open>rowstart\<close>
  delimits, the values of the matrix lie in \<open>val\<close> at the same positions, and an iterator
  is a position in these arrays. A square pattern stores the diagonal entry of a row
  first. The iterator of the last position of a row, advanced once, stands at the first
  position of the next row; reading through an iterator past the last row fails.
\<close>

record dealii_sparsity_pattern =
  sp_rows :: nat
  sp_cols :: nat
  rowstart :: "nat list"
  colnums :: "nat list"

record dealii_sparse_matrix =
  dsm_cols :: dealii_sparsity_pattern
  val :: "number list"

definition read_at :: "'a list \<Rightarrow> nat \<Rightarrow> error + 'a" where
  "read_at xs k = (if k < length xs then Inr (xs ! k) else Inl OutOfBounds)"

definition sp_begin :: "dealii_sparsity_pattern \<Rightarrow> nat \<Rightarrow> error + nat" where
  "sp_begin sp r = (if r < sp_rows sp then read_at (rowstart sp) r else Inl ExcIndexRange)"

definition sp_end :: "dealii_sparsity_pattern \<Rightarrow> nat \<Rightarrow> error + nat" where
  "sp_end sp r = (if r < sp_rows sp then read_at (rowstart sp) (r + 1) else Inl ExcIndexRange)"

definition column :: "dealii_sparsity_pattern \<Rightarrow> nat \<Rightarrow> error + nat" where
  "column sp k =
     (case read_at (rowstart sp) (sp_rows sp) of
        Inl e \<Rightarrow> Inl e
      | Inr n_entries \<Rightarrow> if k < n_entries then read_at (colnums sp) k else Inl ExcInvalidIterator)"

definition value_at :: "dealii_sparse_matrix \<Rightarrow> nat \<Rightarrow> error + number" where
  "value_at A k = (if k < length (val A) then Inr (val A ! k) else Inl ExcIndexRange)"

text \<open>
  The two inner loops of lines 659-664. Each reads the columns at both iterators before it
  compares the moving iterator with the end of its row.
\<close>

function skip_select ::
  "dealii_sparsity_pattern \<Rightarrow> dealii_sparse_matrix \<Rightarrow> nat \<Rightarrow> nat \<Rightarrow> nat \<Rightarrow> error + nat"
where
  "skip_select sp A end_select it select_index =
     (case column sp select_index of
        Inl e \<Rightarrow> Inl e
      | Inr cs \<Rightarrow>
          (case column (dsm_cols A) it of
             Inl e \<Rightarrow> Inl e
           | Inr ci \<Rightarrow>
               if cs < ci \<and> select_index \<noteq> end_select
               then skip_select sp A end_select it (select_index + 1)
               else Inr select_index))"
  by pat_completeness auto
termination
  by (relation "measure (\<lambda>(sp, A, e, it, sel). length (colnums sp) - sel)")
     (auto simp: column_def read_at_def split: sum.splits if_splits)

function skip_it ::
  "dealii_sparsity_pattern \<Rightarrow> dealii_sparse_matrix \<Rightarrow> nat \<Rightarrow> nat \<Rightarrow> nat \<Rightarrow> error + nat"
where
  "skip_it sp A end_it select_index it =
     (case column (dsm_cols A) it of
        Inl e \<Rightarrow> Inl e
      | Inr ci \<Rightarrow>
          (case column sp select_index of
             Inl e \<Rightarrow> Inl e
           | Inr cs \<Rightarrow>
               if ci < cs \<and> it \<noteq> end_it
               then skip_it sp A end_it select_index (it + 1)
               else Inr it))"
  by pat_completeness auto
termination
  by (relation "measure (\<lambda>(sp, A, e, sel, it). length (colnums (dsm_cols A)) - it)")
     (auto simp: column_def read_at_def split: sum.splits if_splits)

declare skip_select.simps [simp del] skip_it.simps [simp del]

lemma skip_it_ge: "skip_it sp A e sel it = Inr it' \<Longrightarrow> it \<le> it'"
proof (induction sp A e sel it rule: skip_it.induct)
  case (1 sp A end_it select_index it)
  from "1.prems" show ?case
    apply (subst (asm) skip_it.simps)
    apply (auto split: sum.splits if_splits dest!: "1.IH")
    done
qed

text \<open>
  The buffers \<^verbatim>\<open>values\<close> and \<^verbatim>\<open>row_indices\<close> hold \<^verbatim>\<open>maximum_row_length\<close> elements;
  \<open>out\<close> is their filled part, of length \<^verbatim>\<open>col\<close>. \<open>copy_entry\<close> is the test against the
  drop tolerance with the two assignments it guards, lines 647-651 and 668-672.
\<close>

definition store :: "nat \<Rightarrow> (nat \<times> number) list \<Rightarrow> nat \<times> number \<Rightarrow> error + (nat \<times> number) list" where
  "store maximum_row_length out x =
     (if length out < maximum_row_length then Inr (out @ [x]) else Inl OutOfBounds)"

definition copy_entry ::
  "dealii_sparse_matrix \<Rightarrow> number \<Rightarrow> nat \<Rightarrow> nat \<Rightarrow> (nat \<times> number) list
     \<Rightarrow> error + (nat \<times> number) list" where
  "copy_entry A drop_tolerance maximum_row_length it out =
     (case value_at A it of
        Inl e \<Rightarrow> Inl e
      | Inr v \<Rightarrow>
          if greater_than (fabs v) drop_tolerance
          then (case column (dsm_cols A) it of
                  Inl e \<Rightarrow> Inl e
                | Inr c \<Rightarrow> store maximum_row_length out (c, v))
          else Inr out)"

text \<open>The loop of lines 656-675.\<close>

function walk ::
  "dealii_sparsity_pattern \<Rightarrow> dealii_sparse_matrix \<Rightarrow> number \<Rightarrow> nat \<Rightarrow> nat \<Rightarrow> nat
     \<Rightarrow> nat \<Rightarrow> nat \<Rightarrow> (nat \<times> number) list \<Rightarrow> error + (nat \<times> number) list"
where
  "walk sp A drop_tolerance maximum_row_length end_select end_it select_index it out =
     (if it \<noteq> end_it \<and> select_index \<noteq> end_select
      then
        (case skip_select sp A end_select it select_index of
           Inl e \<Rightarrow> Inl e
         | Inr select_index1 \<Rightarrow>
             (case skip_it sp A end_it select_index1 it of
                Inl e \<Rightarrow> Inl e
              | Inr it1 \<Rightarrow>
                  if it1 = end_it then Inr out
                  else
                    (case copy_entry A drop_tolerance maximum_row_length it1 out of
                       Inl e \<Rightarrow> Inl e
                     | Inr out1 \<Rightarrow>
                         walk sp A drop_tolerance maximum_row_length end_select end_it
                           (select_index1 + 1) (it1 + 1) out1)))
      else Inr out)"
  by pat_completeness auto
termination
  by (relation "measure (\<lambda>(sp, A, tol, mrl, es, ei, sel, it, out). length (val A) - it)")
     (auto simp: copy_entry_def value_at_def split: sum.splits if_splits dest!: skip_it_ge)

declare walk.simps [simp del]

text \<open>
  The body of the loop over the rows, lines 638-675: the iterators of the row in both
  structures, the diagonal entry of a square pattern, then the walk. Its result is what
  the following call of \<^verbatim>\<open>set\<close> is given.
\<close>

definition copy_row ::
  "dealii_sparsity_pattern \<Rightarrow> dealii_sparse_matrix \<Rightarrow> number \<Rightarrow> nat \<Rightarrow> nat
     \<Rightarrow> error + (nat \<times> number) list" where
  "copy_row sp A drop_tolerance maximum_row_length row =
     (case sp_begin sp row of Inl e \<Rightarrow> Inl e | Inr select_index \<Rightarrow>
      case sp_begin (dsm_cols A) row of Inl e \<Rightarrow> Inl e | Inr it \<Rightarrow>
      case sp_end sp row of Inl e \<Rightarrow> Inl e | Inr end_select \<Rightarrow>
      case sp_end (dsm_cols A) row of Inl e \<Rightarrow> Inl e | Inr end_it \<Rightarrow>
        if sp_rows sp = sp_cols sp
        then
          (case column (dsm_cols A) it of
             Inl e \<Rightarrow> Inl e
           | Inr c \<Rightarrow>
               if c \<noteq> row then Inl ExcDimensionMismatch
               else
                 (case copy_entry A drop_tolerance maximum_row_length it [] of
                    Inl e \<Rightarrow> Inl e
                  | Inr out \<Rightarrow>
                      walk sp A drop_tolerance maximum_row_length end_select end_it
                        (select_index + 1) (it + 1) out))
        else walk sp A drop_tolerance maximum_row_length end_select end_it select_index it [])"

text \<open>
  Modelled from the spec: \<^verbatim>\<open>IndexSet\<close> is declared outside these sources; the spec makes
  it an ordered set of indices with a total size, a membership test and a map bound to a
  communicator.
\<close>

record index_set =
  is_size :: nat
  is_elements :: "nat list"

definition make_tpetra_map_rcp :: "index_set \<Rightarrow> mpi_comm \<Rightarrow> tpetra_map" where
  "make_tpetra_map_rcp ix communicator =
     \<lparr>global_num_elements = is_size ix, my_gids = map int (is_elements ix),
      map_comm = communicator\<rparr>"

definition is_element :: "index_set \<Rightarrow> nat \<Rightarrow> bool" where
  "is_element ix k = (k \<in> set (is_elements ix))"

definition complete_index_set :: "nat \<Rightarrow> index_set" where
  "complete_index_set k = \<lparr>is_size = k, is_elements = [0..<k]\<rparr>"

definition row_length :: "dealii_sparsity_pattern \<Rightarrow> nat \<Rightarrow> error + nat" where
  "row_length sp r =
     (if \<not> r < sp_rows sp then Inl ExcIndexRange
      else (case read_at (rowstart sp) (r + 1) of
              Inl e \<Rightarrow> Inl e
            | Inr e \<Rightarrow> (case read_at (rowstart sp) r of
                          Inl e \<Rightarrow> Inl e
                        | Inr b \<Rightarrow> Inr (e - b))))"

definition column_numbers :: "dealii_sparsity_pattern \<Rightarrow> nat \<Rightarrow> nat \<Rightarrow> error + nat list" where
  "column_numbers sp r len =
     (if \<not> r < sp_rows sp then Inl ExcIndexRange
      else (case read_at (rowstart sp) r of
              Inl e \<Rightarrow> Inl e
            | Inr b \<Rightarrow> if b + len \<le> length (colnums sp)
                       then Inr (take len (drop b (colnums sp)))
                       else Inl OutOfBounds))"

definition sp_n_nonzero_elements :: "dealii_sparsity_pattern \<Rightarrow> error + nat" where
  "sp_n_nonzero_elements sp =
     (case read_at (rowstart sp) (sp_rows sp) of
        Inl e \<Rightarrow> Inl e
      | Inr e \<Rightarrow> (case read_at (rowstart sp) 0 of
                    Inl e \<Rightarrow> Inl e
                  | Inr b \<Rightarrow> Inr (e - b)))"

text \<open>
  The least and the greatest global index a process owns. A map with no local index has
  none; \<^verbatim>\<open>reinit_matrix\<close> then asks for an array of negative size, and the model ends
  the call with an error.
\<close>

definition getMinGlobalIndex :: "tpetra_map \<Rightarrow> int option" where
  "getMinGlobalIndex mp = (case my_gids mp of [] \<Rightarrow> None | g # gs \<Rightarrow> Some (fold min gs g))"

definition getMaxGlobalIndex :: "tpetra_map \<Rightarrow> int option" where
  "getMaxGlobalIndex mp = (case my_gids mp of [] \<Rightarrow> None | g # gs \<Rightarrow> Some (fold max gs g))"

definition insertGlobalIndices :: "crs_graph \<Rightarrow> int \<Rightarrow> int list \<Rightarrow> crs_graph" where
  "insertGlobalIndices g r cs = g\<lparr>g_indices := g_indices g @ map (Pair r) cs\<rparr>"

definition getGlobalNumCols :: "crs_graph \<Rightarrow> nat" where
  "getGlobalNumCols g =
     (case g_fill g of FillActive \<Rightarrow> 0 | FillComplete dmap rmap \<Rightarrow> global_num_elements dmap)"

text \<open>
  \<^verbatim>\<open>reinit_matrix\<close> for a \<^verbatim>\<open>dealii::SparsityPattern\<close> without exchange of data, lines
  59-165: the row lengths, the insertion of the rows into a new graph, its
  \<^verbatim>\<open>fillComplete\<close> with the column map as the domain and the row map as the range, and
  the matrix on that graph. The path with exchange of data goes through
  \<^verbatim>\<open>SparsityPattern::reinit\<close>, which is not among the sources, and is not modelled.
\<close>

fun entries_per_row :: "dealii_sparsity_pattern \<Rightarrow> nat list \<Rightarrow> error + nat list" where
  "entries_per_row sp [] = Inr []"
| "entries_per_row sp (row # rows) =
     (case row_length sp row of
        Inl e \<Rightarrow> Inl e
      | Inr len \<Rightarrow> (case entries_per_row sp rows of
                      Inl e \<Rightarrow> Inl e
                    | Inr lens \<Rightarrow> Inr (len # lens)))"

fun insert_rows ::
  "dealii_sparsity_pattern \<Rightarrow> tpetra_map \<Rightarrow> nat list \<Rightarrow> crs_graph \<Rightarrow> error + crs_graph" where
  "insert_rows sp row_space_map [] graph = Inr graph"
| "insert_rows sp row_space_map (global_row # rows) graph =
     (case row_length sp global_row of
        Inl e \<Rightarrow> Inl e
      | Inr len \<Rightarrow>
          if len = 0 then insert_rows sp row_space_map rows graph
          else
            (case column_numbers sp global_row len of
               Inl e \<Rightarrow> Inl e
             | Inr row_indices \<Rightarrow>
                 if \<not> global_row < global_num_elements row_space_map then Inl ExcIndexRange
                 else insert_rows sp row_space_map rows
                        (insertGlobalIndices graph (int global_row) (map int row_indices))))"

definition reinit_matrix ::
  "index_set \<Rightarrow> index_set \<Rightarrow> dealii_sparsity_pattern \<Rightarrow> mpi_comm
     \<Rightarrow> error + (tpetra_map \<times> crs_matrix)" where
  "reinit_matrix row_parallel_partitioning column_parallel_partitioning sparsity_pattern
       communicator =
     (let row_space_map = make_tpetra_map_rcp row_parallel_partitioning communicator;
          column_space_map = make_tpetra_map_rcp column_parallel_partitioning communicator
      in if getRank communicator = 0
            \<and> sp_rows sparsity_pattern \<noteq> is_size row_parallel_partitioning
         then Inl ExcDimensionMismatch
         else if getRank communicator = 0
            \<and> sp_cols sparsity_pattern \<noteq> is_size column_parallel_partitioning
         then Inl ExcDimensionMismatch
         else
           (case (getMinGlobalIndex row_space_map, getMaxGlobalIndex row_space_map) of
              (Some first_row, Some max_row) \<Rightarrow>
                (let rows = map nat [first_row..max_row]
                 in case entries_per_row sparsity_pattern rows of
                      Inl e \<Rightarrow> Inl e
                    | Inr n_entries_per_row \<Rightarrow>
                        (case insert_rows sparsity_pattern row_space_map rows
                                \<lparr>g_row_map = row_space_map, g_col_map = None,
                                 g_indices = [], g_fill = FillActive\<rparr> of
                           Inl e \<Rightarrow> Inl e
                         | Inr graph \<Rightarrow>
                             (let graph1 = graph_fillComplete column_space_map row_space_map graph
                              in if sp_cols sparsity_pattern \<noteq> getGlobalNumCols graph1
                                 then Inl ExcDimensionMismatch
                                 else (case matrix_from_graph graph1 of
                                         Inl e \<Rightarrow> Inl e
                                       | Inr A \<Rightarrow> Inr (column_space_map, A)))))
            | _ \<Rightarrow> Inl OutOfBounds))"

text \<open>\<^verbatim>\<open>reinit\<close> from a sparsity pattern, lines 560-582, without exchange of data.\<close>

definition reinit_sparsity ::
  "index_set \<Rightarrow> index_set \<Rightarrow> dealii_sparsity_pattern \<Rightarrow> mpi_comm \<Rightarrow> error + sparse_matrix" where
  "reinit_sparsity row_parallel_partitioning col_parallel_partitioning sparsity_pattern
       communicator =
     (case reinit_matrix row_parallel_partitioning col_parallel_partitioning sparsity_pattern
             communicator of
        Inl e \<Rightarrow> Inl e
      | Inr (csm, A) \<Rightarrow>
          Inr (compress \<lparr>column_space_map = csm, matrix = A, compressed = False\<rparr>))"

text \<open>
  \<^verbatim>\<open>reinit\<close> from a reference matrix, lines 586-684. The numbers of entries are those of
  the process. The matrix member is never null in the model.
\<close>

definition n_nonzero_elements :: "sparse_matrix \<Rightarrow> nat" where
  "n_nonzero_elements M = length (entries (matrix M))"

definition getLocalMaxNumRowEntries :: "crs_matrix \<Rightarrow> nat" where
  "getLocalMaxNumRowEntries A =
     fold max (map (\<lambda>g. length (filter (\<lambda>(r, c, v). r = g) (entries A)))
                 (my_gids (row_map A))) 0"

fun copy_rows ::
  "dealii_sparsity_pattern \<Rightarrow> dealii_sparse_matrix \<Rightarrow> number \<Rightarrow> nat \<Rightarrow> index_set
     \<Rightarrow> nat list \<Rightarrow> sparse_matrix \<Rightarrow> error + sparse_matrix" where
  "copy_rows sp A drop_tolerance maximum_row_length row_parallel_partitioning [] M = Inr M"
| "copy_rows sp A drop_tolerance maximum_row_length row_parallel_partitioning (row # rows) M =
     (if is_element row_parallel_partitioning row
      then
        (case copy_row sp A drop_tolerance maximum_row_length row of
           Inl e \<Rightarrow> Inl e
         | Inr out \<Rightarrow>
             (case set_row M row (length out) (map fst out) (map snd out) False of
                Inl e \<Rightarrow> Inl e
              | Inr M1 \<Rightarrow>
                  copy_rows sp A drop_tolerance maximum_row_length row_parallel_partitioning
                    rows M1))
      else copy_rows sp A drop_tolerance maximum_row_length row_parallel_partitioning rows M)"

definition reinit ::
  "sparse_matrix \<Rightarrow> index_set \<Rightarrow> index_set \<Rightarrow> dealii_sparse_matrix \<Rightarrow> mpi_comm \<Rightarrow> number
     \<Rightarrow> bool \<Rightarrow> dealii_sparsity_pattern option \<Rightarrow> error + sparse_matrix" where
  "reinit M row_parallel_partitioning col_parallel_partitioning dealii_sparse_matrix
       communicator drop_tolerance copy_values use_this_sparsity =
     (let n_rows = sp_rows (dsm_cols dealii_sparse_matrix)
      in if is_size row_parallel_partitioning \<noteq> n_rows then Inl ExcDimensionMismatch
         else if is_size col_parallel_partitioning \<noteq> sp_cols (dsm_cols dealii_sparse_matrix)
         then Inl ExcDimensionMismatch
         else
           (let sparsity_pattern =
                  (case use_this_sparsity of
                     Some sp \<Rightarrow> sp
                   | None \<Rightarrow> dsm_cols dealii_sparse_matrix)
            in case sp_n_nonzero_elements sparsity_pattern of
                 Inl e \<Rightarrow> Inl e
               | Inr nnz \<Rightarrow>
                   (case (if (m_size M \<noteq> n_rows \<or> n_nonzero_elements M \<noteq> nnz \<or> copy_values)
                             \<and> use_this_sparsity = None
                          then reinit_sparsity row_parallel_partitioning
                                 col_parallel_partitioning sparsity_pattern communicator
                          else Inr M) of
                      Inl e \<Rightarrow> Inl e
                    | Inr M1 \<Rightarrow>
                        if copy_values = False then Inr M1
                        else
                          (case copy_rows sparsity_pattern dealii_sparse_matrix drop_tolerance
                                  (getLocalMaxNumRowEntries (matrix M1))
                                  row_parallel_partitioning [0..<n_rows] M1 of
                             Inl e \<Rightarrow> Inl e
                           | Inr M2 \<Rightarrow> Inr (compress M2)))))"

subsection \<open>Example matrices\<close>

text \<open>
  A graph of two rows with the diagonal positions only, fill-complete on the maps of one
  process, and the sparsity pattern that carries it.
\<close>

definition diag_graph :: crs_graph where
  "diag_graph =
     graph_fillComplete (contiguous_map 2 MPI_COMM_SELF) (contiguous_map 2 MPI_COMM_SELF)
       \<lparr>g_row_map = contiguous_map 2 MPI_COMM_SELF, g_col_map = None,
        g_indices = [(0, 0), (1, 1)], g_fill = FillActive\<rparr>"

definition diag_pattern :: tpetra_sparsity_pattern where
  "diag_pattern = \<lparr>trilinos_sparsity_pattern = diag_graph\<rparr>"

text \<open>
  A matrix of two rows and columns on its own graph after \<^verbatim>\<open>set(0, 1, {0}, {5}, false)\<close>,
  still editable, and the same matrix after \<^verbatim>\<open>compress\<close>.
\<close>

definition editable_example :: sparse_matrix where
  "editable_example =
     (SparseMatrix_m_n 2 2 2)
       \<lparr>matrix := insertGlobalValues (matrix (SparseMatrix_m_n 2 2 2)) 0 [(0, Finite 5)]\<rparr>"

definition finalized_example :: sparse_matrix where
  "finalized_example = compress editable_example"

text \<open>
  A fill-complete matrix with the one entry \<open>7\<close> at \<open>(0, 1)\<close>, and a store with a source
  vector at address \<open>10\<close> and a destination vector everywhere else.
\<close>

definition mult_example :: sparse_matrix where
  "mult_example =
     compress ((SparseMatrix_m_n 2 2 2)
       \<lparr>matrix := insertGlobalValues (matrix (SparseMatrix_m_n 2 2 2)) 0 [(1, Finite 7)]\<rparr>)"

definition example_store :: vector_store where
  "example_store a =
     (if a = 10
      then \<lparr>vec_map = contiguous_map 2 MPI_COMM_SELF, vec_vals = [Finite 2, Finite 3]\<rparr>
      else \<lparr>vec_map = contiguous_map 2 MPI_COMM_SELF, vec_vals = [Finite 10, Finite 20]\<rparr>)"

text \<open>
  A reference matrix of three rows and columns, with the diagonal first in every row.
\<close>

definition reference_pattern :: dealii_sparsity_pattern where
  "reference_pattern =
     \<lparr>sp_rows = 3, sp_cols = 3, rowstart = [0, 2, 5, 7],
      colnums = [0, 1, 1, 0, 2, 2, 1]\<rparr>"

definition reference_matrix :: dealii_sparse_matrix where
  "reference_matrix =
     \<lparr>dsm_cols = reference_pattern,
      val = [Finite 4, Finite (1 / 2), Finite (1 / 10), Finite (- 3), Finite 2, Finite 0, NaN]\<rparr>"

text \<open>
  The matrix the constructor builds from the diagonal pattern: on a static graph, with
  zero values, compressed.
\<close>

definition static_example :: sparse_matrix where
  "static_example =
     compress \<lparr>column_space_map = contiguous_map 2 MPI_COMM_SELF,
               matrix = \<lparr>row_map = contiguous_map 2 MPI_COMM_SELF,
                         col_map = Some (contiguous_map 2 MPI_COMM_SELF),
                         entries = [(0, 0, Finite 0), (1, 1, Finite 0)],
                         static_graph = True, fill = FillActive\<rparr>,
               compressed = False\<rparr>"

text \<open>
  A reference matrix and a target sparsity of three rows and columns that differ: row
  \<open>0\<close> has the columns \<open>0, 2\<close> in the reference matrix and \<open>0, 1\<close> in the target, and row
  \<open>2\<close>, the last one, has \<open>2, 1\<close> and \<open>2, 0\<close>. Both store the diagonal first and the
  other columns in ascending order.
\<close>

definition target_pattern :: dealii_sparsity_pattern where
  "target_pattern =
     \<lparr>sp_rows = 3, sp_cols = 3, rowstart = [0, 2, 3, 5], colnums = [0, 1, 1, 2, 0]\<rparr>"

definition wider_matrix :: dealii_sparse_matrix where
  "wider_matrix =
     \<lparr>dsm_cols = \<lparr>sp_rows = 3, sp_cols = 3, rowstart = [0, 2, 3, 5],
                  colnums = [0, 2, 1, 2, 1]\<rparr>,
      val = [Finite 4, Finite 9, Finite 1, Finite 6, Finite 7]\<rparr>"

section \<open>Properties\<close>

subsection \<open>Facts about the Tpetra model\<close>

lemma structure_update_entry:
  "map (\<lambda>(r, c, v). (r, c)) (update_entry f r c es) = map (\<lambda>(r, c, v). (r, c)) es"
  by (induction es) auto

lemma structure_fold_update:
  "map (\<lambda>(r, c, v). (r, c)) (fold (\<lambda>(c, v). update_entry (g v) r c) cvs es)
     = map (\<lambda>(r, c, v). (r, c)) es"
  by (induction cvs arbitrary: es) (auto simp: structure_update_entry)

lemma structure_replaceGlobalValues:
  "structure_of (replaceGlobalValues A r cvs) = structure_of A"
  using structure_fold_update [of "\<lambda>v old. v" r cvs "entries A"]
  by (simp add: structure_of_def replaceGlobalValues_def)

lemma structure_sumIntoGlobalValues:
  "structure_of (sumIntoGlobalValues A r cvs) = structure_of A"
  using structure_fold_update [of "\<lambda>v old. nadd old v" r cvs "entries A"]
  by (simp add: structure_of_def sumIntoGlobalValues_def)

lemma structure_insertGlobalValues:
  "structure_of (insertGlobalValues A r cvs) = structure_of A @ map (\<lambda>(c, v). (r, c)) cvs"
  by (simp add: structure_of_def insertGlobalValues_def case_prod_unfold)

lemma resume_if_filled_eq:
  "resume_if_filled M = M\<lparr>matrix := resumeFill (matrix M), compressed := False\<rparr>"
  by (cases "fill (matrix M)") (auto simp: resume_if_filled_def isFillComplete_def resumeFill_def)

lemma m_size_SparseMatrix_m_n: "m_size (SparseMatrix_m_n mm nn k) = mm"
  by (simp add: m_size_def SparseMatrix_m_n_def contiguous_map_def)

lemma m_size_compress: "m_size (compress M) = m_size M"
  by (simp add: m_size_def compress_def fillComplete_def)

subsection \<open>Writing a row with \<^verbatim>\<open>set\<close>\<close>

text \<open>
  The entries of a call that survive: the first \<open>n_cols\<close> pairs of a column and a value,
  without the zero values when zeros are elided.
\<close>

definition surviving :: "nat \<Rightarrow> nat list \<Rightarrow> number list \<Rightarrow> bool \<Rightarrow> (int \<times> number) list" where
  "surviving n_cols col_indices values elide_zero_values =
     (let given = zip (map int (take n_cols col_indices)) (take n_cols values)
      in if elide_zero_values then filter (\<lambda>(c, v). v \<noteq> Finite 0) given else given)"

lemma set_elide_filter:
  "set_elide xs =
     (if \<forall>x \<in> set xs. is_finite (snd x)
      then Inr (filter (\<lambda>(c, v). v \<noteq> Finite 0) xs)
      else Inl ExcNumberNotFinite)"
proof (induction xs)
  case Nil
  show ?case by simp
next
  case (Cons x xs)
  obtain c v where x: "x = (c, v)" by (cases x)
  show ?case using Cons.IH by (simp add: x)
qed

lemma map_snd_zip_take:
  "n \<le> length cs \<Longrightarrow> n \<le> length vs \<Longrightarrow>
   map snd (zip (map int (take n cs)) (take n vs)) = take n vs"
  by (simp add: map_snd_zip)

lemma finite_given:
  "n \<le> length cs \<Longrightarrow> n \<le> length vs \<Longrightarrow>
   (\<forall>x \<in> set (zip (map int (take n cs)) (take n vs)). is_finite (snd x))
     = (\<forall>v \<in> set (take n vs). is_finite v)"
proof -
  assume a: "n \<le> length cs" "n \<le> length vs"
  have "(\<forall>x \<in> set (zip (map int (take n cs)) (take n vs)). is_finite (snd x))
          = (\<forall>v \<in> set (map snd (zip (map int (take n cs)) (take n vs))). is_finite v)"
    by simp
  then show ?thesis using a by (simp only: map_snd_zip_take)
qed

lemma length_filter_given:
  "n \<le> length cs \<Longrightarrow> n \<le> length vs \<Longrightarrow>
   length (filter P (zip (map int (take n cs)) (take n vs))) < Suc n"
proof -
  assume a: "n \<le> length cs" "n \<le> length vs"
  have "length (filter P (zip (map int (take n cs)) (take n vs)))
          \<le> length (zip (map int (take n cs)) (take n vs))"
    by (rule length_filter_le)
  also have "\<dots> = n" using a by simp
  finally show ?thesis by simp
qed

lemma set_row_result:
  assumes "row < m_size M" and "n_cols \<le> length col_indices" and "n_cols \<le> length values"
    and "elide_zero_values \<Longrightarrow> \<forall>v \<in> set (take n_cols values). is_finite v"
  shows "set_row M row n_cols col_indices values elide_zero_values =
           Inr (M\<lparr>matrix :=
                    (if isStaticGraph (matrix M)
                     then replaceGlobalValues (resumeFill (matrix M)) (int row)
                            (surviving n_cols col_indices values elide_zero_values)
                     else insertGlobalValues (resumeFill (matrix M)) (int row)
                            (surviving n_cols col_indices values elide_zero_values)),
                  compressed := False\<rparr>)"
  using assms
  by (auto simp: set_row_def read_arrays_def set_elide_filter finite_given
        length_filter_given surviving_def Let_def resume_if_filled_eq isStaticGraph_def
        resumeFill_def)

text \<open>
  What a matrix stores at a position: the value of the first entry there, if there is one.
\<close>

definition first_value :: "(int \<times> int \<times> number) list \<Rightarrow> int \<Rightarrow> int \<Rightarrow> number option" where
  "first_value es r c =
     map_option (\<lambda>e. snd (snd e)) (find (\<lambda>e. fst e = r \<and> fst (snd e) = c) es)"

definition stored_value :: "crs_matrix \<Rightarrow> int \<Rightarrow> int \<Rightarrow> number option" where
  "stored_value A r c = first_value (entries A) r c"

lemma first_value_update_entry:
  "first_value (update_entry f r c es) r2 c2
   = (if r2 = r \<and> c2 = c then map_option f (first_value es r c) else first_value es r2 c2)"
proof (induction es)
  case Nil
  show ?case by (simp add: first_value_def)
next
  case (Cons e es)
  obtain r' c' v where e: "e = (r', c', v)" by (cases e)
  show ?case using Cons.IH by (auto simp: e first_value_def)
qed

lemma first_value_fold_replace:
  "first_value (fold (\<lambda>(c, v). update_entry (\<lambda>old. v) r c) cvs es) r2 c2
   = (if r2 = r
      then (case first_value es r c2 of
              None \<Rightarrow> None
            | Some old \<Rightarrow> Some (case map_of (rev cvs) c2 of None \<Rightarrow> old | Some v \<Rightarrow> v))
      else first_value es r2 c2)"
proof (induction cvs arbitrary: es)
  case Nil
  show ?case by (simp split: option.splits)
next
  case (Cons x cvs)
  obtain c v where x: "x = (c, v)" by (cases x)
  have m: "map_of (rev (x # cvs)) c2
             = (case map_of (rev cvs) c2 of
                  Some w \<Rightarrow> Some w
                | None \<Rightarrow> if c2 = c then Some v else None)"
    by (simp add: x map_add_def split: option.splits)
  have "first_value (fold (\<lambda>(c, v). update_entry (\<lambda>old. v) r c) (x # cvs) es) r2 c2
          = first_value (fold (\<lambda>(c, v). update_entry (\<lambda>old. v) r c) cvs
                           (update_entry (\<lambda>old. v) r c es)) r2 c2"
    by (simp add: x)
  also have "\<dots> = (if r2 = r
      then (case first_value (update_entry (\<lambda>old. v) r c es) r c2 of
              None \<Rightarrow> None
            | Some old \<Rightarrow> Some (case map_of (rev cvs) c2 of None \<Rightarrow> old | Some v \<Rightarrow> v))
      else first_value (update_entry (\<lambda>old. v) r c es) r2 c2)"
    by (rule Cons.IH)
  also have "\<dots> = (if r2 = r
      then (case first_value es r c2 of
              None \<Rightarrow> None
            | Some old \<Rightarrow> Some (case map_of (rev (x # cvs)) c2 of None \<Rightarrow> old | Some v \<Rightarrow> v))
      else first_value es r2 c2)"
    unfolding m first_value_update_entry
    by (cases "first_value es r c2"; cases "map_of (rev cvs) c2"; cases "c2 = c"; simp)
  finally show ?case .
qed

lemma stored_value_replaceGlobalValues:
  "stored_value (replaceGlobalValues A r cvs) r2 c2
   = (if r2 = r
      then (case stored_value A r c2 of
              None \<Rightarrow> None
            | Some old \<Rightarrow> Some (case map_of (rev cvs) c2 of None \<Rightarrow> old | Some v \<Rightarrow> v))
      else stored_value A r2 c2)"
  using first_value_fold_replace [of r cvs "entries A" r2 c2]
  by (simp add: stored_value_def replaceGlobalValues_def)

text \<open>
  Claim C1. A call of \<^verbatim>\<open>set\<close> whose row is in range, whose arrays hold \<open>n_cols\<close>
  elements and, when zeros are elided, whose values are finite, returns. On a matrix that
  is not on a static graph the surviving entries are inserted: they are appended to the
  stored entries, and the structure grows by their positions. On a static graph they are
  replaced: a position of the row that the matrix stores and the call names now holds the
  value the call gives it (the last one, if the call names the position twice), every
  other stored position holds the value it held, no position is added, and a position
  the matrix does not store is still not stored. In both cases the write is applied to
  the matrix after \<^verbatim>\<open>resumeFill\<close>, and the matrix is editable afterwards: the flag
  \<^verbatim>\<open>compressed\<close> is false and the Tpetra matrix is not fill-complete.
\<close>

theorem set_row_inserts_or_replaces:
  assumes "row < m_size M" and "n_cols \<le> length col_indices" and "n_cols \<le> length values"
    and "elide_zero_values \<Longrightarrow> \<forall>v \<in> set (take n_cols values). is_finite v"
  shows "\<exists>M'. set_row M row n_cols col_indices values elide_zero_values = Inr M'
           \<and> compressed M' = False \<and> \<not> isFillComplete (matrix M')
           \<and> (if isStaticGraph (matrix M)
                then matrix M' = replaceGlobalValues (resumeFill (matrix M)) (int row)
                                   (surviving n_cols col_indices values elide_zero_values)
                   \<and> structure_of (matrix M') = structure_of (matrix M)
                   \<and> (\<forall>c. stored_value (matrix M') (int row) c
                            = (case stored_value (matrix M) (int row) c of
                                 None \<Rightarrow> None
                               | Some old \<Rightarrow>
                                   Some (case map_of
                                          (rev (surviving n_cols col_indices values
                                                  elide_zero_values)) c of
                                           None \<Rightarrow> old
                                         | Some v \<Rightarrow> v)))
                   \<and> (\<forall>r c. r \<noteq> int row \<longrightarrow>
                          stored_value (matrix M') r c = stored_value (matrix M) r c)
                else matrix M' = insertGlobalValues (resumeFill (matrix M)) (int row)
                                   (surviving n_cols col_indices values elide_zero_values)
                   \<and> entries (matrix M') = entries (matrix M)
                        @ map (\<lambda>(c, v). (int row, c, v))
                            (surviving n_cols col_indices values elide_zero_values)
                   \<and> structure_of (matrix M') = structure_of (matrix M)
                        @ map (\<lambda>(c, v). (int row, c))
                            (surviving n_cols col_indices values elide_zero_values))"
proof -
  let ?kept = "surviving n_cols col_indices values elide_zero_values"
  let ?A = "resumeFill (matrix M)"
  have same: "structure_of ?A = structure_of (matrix M)"
    by (simp add: structure_of_def resumeFill_def)
  have sv: "\<And>r c. stored_value ?A r c = stored_value (matrix M) r c"
    by (simp add: stored_value_def resumeFill_def)
  have ent: "entries (insertGlobalValues ?A (int row) ?kept)
               = entries (matrix M) @ map (\<lambda>(c, v). (int row, c, v)) ?kept"
    by (simp add: insertGlobalValues_def resumeFill_def)
  have active: "\<not> isFillComplete (replaceGlobalValues ?A (int row) ?kept)"
    "\<not> isFillComplete (insertGlobalValues ?A (int row) ?kept)"
    by (simp_all add: isFillComplete_def replaceGlobalValues_def insertGlobalValues_def
          resumeFill_def)
  show ?thesis
    using set_row_result [OF assms] same active ent
    by (simp add: structure_replaceGlobalValues structure_insertGlobalValues
          stored_value_replaceGlobalValues sv)
qed

lemma static_example_constructed:
  "SparseMatrix_from_sparsity diag_pattern = Inr static_example"
  by (simp add: SparseMatrix_from_sparsity_def diag_pattern_def diag_graph_def
        graph_fillComplete_def matrix_from_graph_def domain_partitioner_def
        static_example_def makeColMap_def contiguous_map_def upt_rec)

lemma static_example_facts:
  "isStaticGraph (matrix static_example)"
  "entries (matrix static_example) = [(0, 0, Finite 0), (1, 1, Finite 0)]"
  "compressed static_example"
  "isFillComplete (matrix static_example)"
  "m_size static_example = 2"
  by (simp_all add: static_example_def compress_def fillComplete_def isStaticGraph_def
        isFillComplete_def m_size_def contiguous_map_def)

theorem set_row_inserts_or_replaces_witness:
  "compressed (compress (SparseMatrix_m_n 2 2 2))
   \<and> (\<exists>M'. set_row (compress (SparseMatrix_m_n 2 2 2)) 0 2 [0, 1] [Finite 3, Finite 0] True = Inr M'
        \<and> compressed M' = False \<and> \<not> isFillComplete (matrix M')
        \<and> entries (matrix M') = [(0, 0, Finite 3)])
   \<and> compressed static_example \<and> isFillComplete (matrix static_example)
   \<and> (\<exists>M'. set_row static_example 0 2 [0, 5] [Finite 8, Finite 9] False = Inr M'
        \<and> compressed M' = False \<and> \<not> isFillComplete (matrix M')
        \<and> structure_of (matrix M') = [(0, 0), (1, 1)]
        \<and> stored_value (matrix M') 0 0 = Some (Finite 8)
        \<and> stored_value (matrix M') 0 5 = None
        \<and> stored_value (matrix M') 1 1 = Some (Finite 0))"
proof -
  let ?M = "compress (SparseMatrix_m_n 2 2 2)"
  have dyn: "\<not> isStaticGraph (matrix ?M)" "entries (matrix ?M) = []"
    by (simp_all add: isStaticGraph_def compress_def SparseMatrix_m_n_def fillComplete_def)
  have c: "compressed ?M" by (simp add: compress_def)
  have 1: "\<exists>M'. set_row ?M 0 2 [0, 1] [Finite 3, Finite 0] True = Inr M'
        \<and> compressed M' = False \<and> \<not> isFillComplete (matrix M')
        \<and> entries (matrix M') = [(0, 0, Finite 3)]"
    using set_row_inserts_or_replaces [of 0 ?M 2 "[0, 1]" "[Finite 3, Finite 0]" True] dyn
    by (auto simp: surviving_def m_size_compress m_size_SparseMatrix_m_n)
  have old: "stored_value (matrix static_example) 0 0 = Some (Finite 0)"
    "stored_value (matrix static_example) 0 5 = None"
    "stored_value (matrix static_example) 1 1 = Some (Finite 0)"
    "structure_of (matrix static_example) = [(0, 0), (1, 1)]"
    by (simp_all add: stored_value_def first_value_def structure_of_def static_example_facts)
  have 2: "\<exists>M'. set_row static_example 0 2 [0, 5] [Finite 8, Finite 9] False = Inr M'
        \<and> compressed M' = False \<and> \<not> isFillComplete (matrix M')
        \<and> structure_of (matrix M') = [(0, 0), (1, 1)]
        \<and> stored_value (matrix M') 0 0 = Some (Finite 8)
        \<and> stored_value (matrix M') 0 5 = None
        \<and> stored_value (matrix M') 1 1 = Some (Finite 0)"
    using set_row_inserts_or_replaces [of 0 static_example 2 "[0, 5]" "[Finite 8, Finite 9]" False]
    by (auto simp: surviving_def static_example_facts old)
  show ?thesis using 1 2 c static_example_facts by simp
qed

subsection \<open>The fill state\<close>

text \<open>
  Claim C6. A second call of \<^verbatim>\<open>compress\<close> right after the first changes nothing, and
  neither does a second call of \<^verbatim>\<open>resume_fill\<close> right after the first.
\<close>

theorem compress_resume_fill_idempotent:
  "compress (compress M) = compress M \<and> resume_fill (resume_fill M) = resume_fill M"
  by (simp add: compress_def resume_fill_def)

subsection \<open>Copying a matrix onto itself\<close>

text \<open>
  Claim C10. \<^verbatim>\<open>copy_from\<close> with the matrix itself as the source returns at once: the
  store, and with it the structure, the values, the column space map and the flag of the
  matrix, is what it was.
\<close>

theorem copy_from_self:
  "copy_from h this this = Inr h"
  by (simp add: copy_from_def)

subsection \<open>Reading an element with \<^verbatim>\<open>element\<close>\<close>

lemma position_range:
  "position g xs k \<noteq> -1 \<Longrightarrow> 0 \<le> k \<Longrightarrow>
   k \<le> position g xs k \<and> position g xs k < k + int (length xs)
   \<and> xs ! nat (position g xs k - k) = g"
proof (induction xs arbitrary: k)
  case Nil
  then show ?case by simp
next
  case (Cons x xs)
  show ?case
  proof (cases "x = g")
    case True
    then show ?thesis using Cons.prems by simp
  next
    case False
    then have p: "position g (x # xs) k = position g xs (k + 1)" by simp
    with Cons.prems have ne: "position g xs (k + 1) \<noteq> -1" by simp
    from Cons.IH [OF ne] Cons.prems(2)
    have ih: "k + 1 \<le> position g xs (k + 1)"
      "position g xs (k + 1) < k + 1 + int (length xs)"
      "xs ! nat (position g xs (k + 1) - (k + 1)) = g" by simp_all
    have "nat (position g xs (k + 1) - k) = Suc (nat (position g xs (k + 1) - (k + 1)))"
      using ih(1) Cons.prems(2) by linarith
    then show ?thesis using ih p by simp
  qed
qed

lemma position_absent: "0 \<le> k \<Longrightarrow> (position g xs k = -1) = (g \<notin> set xs)"
proof (induction xs arbitrary: k)
  case Nil
  then show ?case by simp
next
  case (Cons x xs)
  then show ?case by auto
qed

lemma getLocalElement_invalid: "(getLocalElement mp g = -1) = (g \<notin> set (my_gids mp))"
  by (simp add: getLocalElement_def position_absent)

lemma getGlobalElement_getLocalElement:
  "getLocalElement mp g \<noteq> -1 \<Longrightarrow> getGlobalElement mp (getLocalElement mp g) = g"
  using position_range [of g "my_gids mp" 0]
  by (simp add: getLocalElement_def getGlobalElement_def)

lemma getLocalElement_inj:
  assumes "getLocalElement mp g \<noteq> -1"
  shows "(getLocalElement mp c = getLocalElement mp g) = (c = g)"
  using assms getGlobalElement_getLocalElement [of mp g]
    getGlobalElement_getLocalElement [of mp c]
  by metis

lemma scan_bounds: "k \<le> scan cs tj k \<and> scan cs tj k \<le> k + length cs"
proof (induction cs arbitrary: k)
  case Nil
  show ?case by simp
next
  case (Cons c cs)
  show ?case using Cons.IH [of "k + 1"] by auto
qed

lemma scan_none:
  "(scan (map fst row) tj k = k + length row) = (find (\<lambda>x. fst x = tj) row = None)"
proof (induction row arbitrary: k)
  case Nil
  show ?case by simp
next
  case (Cons x row)
  show ?case
  proof (cases "fst x = tj")
    case True
    then show ?thesis by simp
  next
    case False
    then show ?thesis using Cons.IH [of "k + 1"] by simp
  qed
qed

lemma scan_some:
  "find (\<lambda>x. fst x = tj) row = Some e \<Longrightarrow>
   snd (row ! (scan (map fst row) tj k - k)) = snd e"
proof (induction row arbitrary: k)
  case Nil
  then show ?case by simp
next
  case (Cons x row)
  show ?case
  proof (cases "fst x = tj")
    case True
    then show ?thesis using Cons.prems by simp
  next
    case False
    then have f: "find (\<lambda>x. fst x = tj) row = Some e" using Cons.prems by simp
    have b: "k + 1 \<le> scan (map fst row) tj (k + 1)"
      using scan_bounds [of "k + 1" "map fst row" tj] by simp
    then have "scan (map fst row) tj (k + 1) - k = Suc (scan (map fst row) tj (k + 1) - (k + 1))"
      by simp
    then show ?thesis using False Cons.IH [OF f, of "k + 1"] by simp
  qed
qed

lemma find_map_filter_row:
  assumes "getLocalElement cm j \<noteq> -1"
  shows "map_option snd (find (\<lambda>x. fst x = getLocalElement cm j)
            (map (\<lambda>(r, c, v). (getLocalElement cm c, v))
               (filter (\<lambda>(r, c, v). r = i) es)))
         = map_option (\<lambda>(r, c, v). v) (find (\<lambda>(r, c, v). r = i \<and> c = j) es)"
proof (induction es)
  case Nil
  show ?case by simp
next
  case (Cons e es)
  obtain r c v where e: "e = (r, c, v)" by (cases e)
  show ?case using Cons.IH getLocalElement_inj [OF assms, of c] by (simp add: e)
qed

text \<open>
  Claim C4, amended. On a matrix with a column map: when the row or the column does not
  translate to a local index, \<^verbatim>\<open>element\<close> returns zero if it is tolerant and fails with
  \<^verbatim>\<open>ExcAccessToNonLocalElement\<close> if not. When both translate and the matrix is not
  fill-complete, it fails with \<^verbatim>\<open>ExcMatrixNotCompressed\<close>, tolerant or not. When both
  translate and the matrix is fill-complete, it returns the value of the first entry
  stored at the position; for a position that is not stored it returns zero if it is
  tolerant and fails with \<^verbatim>\<open>ExcInvalidIndex\<close> if not.
\<close>

theorem element_lookup:
  assumes "col_map (matrix M) = Some cm"
  shows "element M i j no_error =
     (if getLocalElement (row_map (matrix M)) (int i) = -1 \<or> getLocalElement cm (int j) = -1
      then (if no_error then Inr (Finite 0) else Inl ExcAccessToNonLocalElement)
      else if \<not> isFillComplete (matrix M) then Inl ExcMatrixNotCompressed
      else (case find (\<lambda>(r, c, v). r = int i \<and> c = int j) (entries (matrix M)) of
              Some (r, c, v) \<Rightarrow> Inr v
            | None \<Rightarrow> (if no_error then Inr (Finite 0) else Inl ExcInvalidIndex)))"
proof (cases "getLocalElement (row_map (matrix M)) (int i) = -1 \<or> getLocalElement cm (int j) = -1")
  case True
  then show ?thesis using assms by (auto simp: element_def Let_def)
next
  case False
  then have ti: "getLocalElement (row_map (matrix M)) (int i) \<noteq> -1"
    and tj: "getLocalElement cm (int j) \<noteq> -1" by simp_all
  define row where
    "row = getLocalRowCopy (matrix M) cm (getLocalElement (row_map (matrix M)) (int i))"
  define s where "s = scan (map fst row) (getLocalElement cm (int j)) 0"
  define found where
    "found = find (\<lambda>(r, c, v). r = int i \<and> c = int j) (entries (matrix M))"
  have row: "row = map (\<lambda>(r, c, v). (getLocalElement cm c, v))
                      (filter (\<lambda>(r, c, v). r = int i) (entries (matrix M)))"
    by (simp add: row_def getLocalRowCopy_def getGlobalElement_getLocalElement [OF ti])
  have fm: "map_option snd (find (\<lambda>x. fst x = getLocalElement cm (int j)) row)
              = map_option (\<lambda>(r, c, v). v) found"
    unfolding row found_def by (rule find_map_filter_row [OF tj])
  have el: "element M i j no_error =
              (if \<not> isFillComplete (matrix M) then Inl ExcMatrixNotCompressed
               else if s = length row
                    then (if no_error then Inr (Finite 0) else Inl ExcInvalidIndex)
                    else Inr (snd (row ! s)))"
    using assms ti tj by (simp add: element_def Let_def row_def s_def)
  show ?thesis
  proof (cases found)
    case None
    then have "find (\<lambda>x. fst x = getLocalElement cm (int j)) row = None"
      using fm by simp
    then have "s = length row"
      using scan_none [of row "getLocalElement cm (int j)" 0] by (simp add: s_def)
    then show ?thesis using el False None by (simp add: found_def)
  next
    case (Some e)
    obtain r c v where e: "e = (r, c, v)" by (cases e)
    from fm Some e obtain e' where
      f: "find (\<lambda>x. fst x = getLocalElement cm (int j)) row = Some e'" and v: "snd e' = v"
      by auto
    have "s \<noteq> length row"
      using f scan_none [of row "getLocalElement cm (int j)" 0] by (simp add: s_def)
    moreover have "snd (row ! s) = v"
      using scan_some [OF f, of 0] v by (simp add: s_def)
    ultimately show ?thesis using el False Some e by (simp add: found_def)
  qed
qed

lemma editable_example_facts:
  "col_map (matrix editable_example) = Some (contiguous_map 2 MPI_COMM_SELF)"
  "row_map (matrix editable_example) = contiguous_map 2 MPI_COMM_SELF"
  "entries (matrix editable_example) = [(0, 0, Finite 5)]"
  "\<not> isFillComplete (matrix editable_example)"
  by (simp_all add: editable_example_def SparseMatrix_m_n_def insertGlobalValues_def
        isFillComplete_def)

lemma finalized_example_facts:
  "col_map (matrix finalized_example) = Some (contiguous_map 2 MPI_COMM_SELF)"
  "row_map (matrix finalized_example) = contiguous_map 2 MPI_COMM_SELF"
  "entries (matrix finalized_example) = [(0, 0, Finite 5)]"
  "isFillComplete (matrix finalized_example)"
  by (simp_all add: finalized_example_def compress_def editable_example_def
        SparseMatrix_m_n_def insertGlobalValues_def fillComplete_def isFillComplete_def)

lemma local_elements_of_two:
  "getLocalElement (contiguous_map 2 MPI_COMM_SELF) 0 = 0"
  "getLocalElement (contiguous_map 2 MPI_COMM_SELF) 1 = 1"
  "getLocalElement (contiguous_map 2 MPI_COMM_SELF) 7 = -1"
  by (simp_all add: getLocalElement_def contiguous_map_def upt_rec)

lemma set_row_gives_editable_example:
  "set_row (SparseMatrix_m_n 2 2 2) 0 1 [0] [Finite 5] False = Inr editable_example"
  by (simp add: set_row_def m_size_SparseMatrix_m_n read_arrays_def resume_if_filled_def
        isFillComplete_def isStaticGraph_def editable_example_def)
     (simp add: SparseMatrix_m_n_def)

text \<open>
  The claim C4 as it was stated fails on an editable matrix: the position \<open>(0, 0)\<close> is
  stored and both indices translate, and the tolerant call fails all the same, as it does
  for the position \<open>(0, 1)\<close>, which is not stored.
\<close>

theorem element_lookup_counterexample:
  "entries (matrix editable_example) = [(0, 0, Finite 5)]
   \<and> element editable_example 0 0 True = Inl ExcMatrixNotCompressed
   \<and> element editable_example 0 1 True = Inl ExcMatrixNotCompressed"
  by (simp add: element_def editable_example_facts local_elements_of_two)

theorem element_lookup_witness:
  "element finalized_example 0 0 False = Inr (Finite 5)
   \<and> element finalized_example 0 1 True = Inr (Finite 0)
   \<and> element finalized_example 0 1 False = Inl ExcInvalidIndex
   \<and> element finalized_example 0 7 True = Inr (Finite 0)
   \<and> element finalized_example 0 7 False = Inl ExcAccessToNonLocalElement
   \<and> element editable_example 0 0 False = Inl ExcMatrixNotCompressed"
  using element_lookup [OF finalized_example_facts(1), of 0 0 False]
    element_lookup [OF finalized_example_facts(1), of 0 1 True]
    element_lookup [OF finalized_example_facts(1), of 0 1 False]
    element_lookup [OF finalized_example_facts(1), of 0 7 True]
    element_lookup [OF finalized_example_facts(1), of 0 7 False]
    element_lookup [OF editable_example_facts(1), of 0 0 False]
  by (simp add: finalized_example_facts editable_example_facts local_elements_of_two)

subsection \<open>The constructors and \<^verbatim>\<open>clear\<close>\<close>

text \<open>
  Claim C7. The default constructor and \<^verbatim>\<open>clear\<close> both build the empty matrix of no
  rows and no columns on the communicator of one process, and neither calls
  \<^verbatim>\<open>fillComplete\<close> on the Tpetra matrix. The constructor leaves \<^verbatim>\<open>compressed\<close> false;
  \<^verbatim>\<open>clear\<close> sets it to true. So the two states differ, and the state after the
  constructor is not the finalized one.
\<close>

theorem default_constructor_and_clear_differ:
  "map_sum id compressed SparseMatrix_default = Inr False
   \<and> map_sum id compressed (clear M) = Inr True
   \<and> map_sum id (isFillComplete \<circ> matrix) SparseMatrix_default = Inr False
   \<and> map_sum id (isFillComplete \<circ> matrix) (clear M) = Inr False
   \<and> map_sum id m_size SparseMatrix_default = Inr 0
   \<and> map_sum id n_size SparseMatrix_default = Inr 0
   \<and> map_sum id (map_comm \<circ> row_map \<circ> matrix) SparseMatrix_default = Inr MPI_COMM_SELF
   \<and> map_sum id m_size (clear M) = Inr 0
   \<and> map_sum id n_size (clear M) = Inr 0"
  by (simp add: SparseMatrix_default_def clear_def matrix_from_graph_def empty_graph_def
        graph_fillComplete_def Let_def isFillComplete_def m_size_def n_size_def
        contiguous_map_def)

text \<open>
  The claim C5 as it was stated fails: the matrix built from the diagonal pattern is
  compressed and fill-complete when the constructor returns, without any call by the
  caller.
\<close>

theorem SparseMatrix_from_sparsity_not_compressed_counterexample:
  "map_sum id compressed (SparseMatrix_from_sparsity diag_pattern) = Inr True
   \<and> map_sum id (isFillComplete \<circ> matrix) (SparseMatrix_from_sparsity diag_pattern) = Inr True"
  by (simp add: SparseMatrix_from_sparsity_def diag_pattern_def diag_graph_def
        graph_fillComplete_def matrix_from_graph_def domain_partitioner_def compress_def
        fillComplete_def isFillComplete_def)

text \<open>
  Claim C5, amended. The constructor from a sparsity pattern whose graph is fill-complete
  takes the structure and the row map of the graph, on a static graph, and the domain map
  of the graph as the column space map; and it compresses the matrix itself, by the call
  of \<^verbatim>\<open>compress\<close> it ends with: the matrix it returns is compressed and fill-complete,
  and a later \<^verbatim>\<open>compress\<close> by the caller changes nothing.
\<close>

theorem SparseMatrix_from_sparsity_compresses:
  assumes "g_fill (trilinos_sparsity_pattern sp) = FillComplete dmap rmap"
  shows "\<exists>M. SparseMatrix_from_sparsity sp = Inr M
           \<and> structure_of (matrix M) = g_indices (trilinos_sparsity_pattern sp)
           \<and> row_map (matrix M) = g_row_map (trilinos_sparsity_pattern sp)
           \<and> isStaticGraph (matrix M)
           \<and> column_space_map M = dmap
           \<and> compressed M \<and> isFillComplete (matrix M)
           \<and> compress M = M"
  using assms
  by (simp add: SparseMatrix_from_sparsity_def matrix_from_graph_def domain_partitioner_def
        compress_def fillComplete_def isFillComplete_def isStaticGraph_def structure_of_def
        case_prod_unfold comp_def)

theorem SparseMatrix_from_sparsity_compresses_witness:
  "\<exists>M. SparseMatrix_from_sparsity diag_pattern = Inr M
      \<and> structure_of (matrix M) = [(0, 0), (1, 1)]
      \<and> column_space_map M = contiguous_map 2 MPI_COMM_SELF
      \<and> compressed M \<and> isFillComplete (matrix M) \<and> compress M = M"
  using SparseMatrix_from_sparsity_compresses
          [of diag_pattern "contiguous_map 2 MPI_COMM_SELF" "contiguous_map 2 MPI_COMM_SELF"]
  by (auto simp: diag_pattern_def diag_graph_def graph_fillComplete_def)

subsection \<open>Values that are not finite\<close>

text \<open>
  Claim C2. \<^verbatim>\<open>set\<close> without zero elision hands its arrays to Tpetra unread: a value
  that is not a number is stored, and no assertion fails.
\<close>

theorem set_row_accepts_NaN:
  "map_sum id (entries \<circ> matrix) (set_row (SparseMatrix_m_n 1 1 1) 0 1 [0] [NaN] False)
     = Inr [(0, 0, NaN)]"
  by (simp add: set_row_def m_size_def contiguous_map_def read_arrays_def
        resume_if_filled_eq isStaticGraph_def SparseMatrix_m_n_def resumeFill_def
        insertGlobalValues_def)

text \<open>
  The other paths do read the values: \<^verbatim>\<open>add\<close> fails on a value that is not finite
  whether it elides zeros or not, and so does \<^verbatim>\<open>set\<close> when it elides zeros.
\<close>

lemma add_all_rejects:
  "\<exists>x \<in> set xs. \<not> is_finite (snd x) \<Longrightarrow> isl (add_all nn xs)"
proof (induction xs)
  case Nil
  then show ?case by simp
next
  case (Cons x xs)
  obtain c v where x: "x = (c, v)" by (cases x)
  show ?case
  proof (cases "is_finite v")
    case False
    then show ?thesis by (simp add: x)
  next
    case True
    then have "\<exists>x \<in> set xs. \<not> is_finite (snd x)" using Cons.prems by (simp add: x)
    then have "isl (add_all nn xs)" by (rule Cons.IH)
    then obtain e where "add_all nn xs = Inl e" by (cases "add_all nn xs") simp_all
    then show ?thesis by (simp add: x)
  qed
qed

lemma add_elide_rejects:
  "\<exists>x \<in> set xs. \<not> is_finite (snd x) \<Longrightarrow> isl (add_elide nn nz k xs)"
proof (induction xs arbitrary: k)
  case Nil
  then show ?case by simp
next
  case (Cons x xs)
  obtain c v where x: "x = (c, v)" by (cases x)
  show ?case
  proof (cases "is_finite v")
    case False
    then have "v \<noteq> Finite 0" by auto
    then show ?thesis using False by (simp add: x)
  next
    case True
    then have "\<exists>x \<in> set xs. \<not> is_finite (snd x)" using Cons.prems by (simp add: x)
    then have ih: "\<And>k. isl (add_elide nn nz k xs)" by (rule Cons.IH)
    obtain e where "add_elide nn nz (k + 1) xs = Inl e"
      using ih [of "k + 1"] by (cases "add_elide nn nz (k + 1) xs") simp_all
    then show ?thesis using ih [of k] by (simp add: x)
  qed
qed

lemma count_list_length: "count_list xs a = length xs \<Longrightarrow> \<forall>v \<in> set xs. v = a"
proof (induction xs)
  case Nil
  then show ?case by simp
next
  case (Cons x xs)
  have "count_list xs a \<le> length xs" by (rule count_le_length)
  then show ?case using Cons by (auto split: if_splits)
qed

lemma read_arrays_values:
  "read_arrays n cs vs = Inr given \<Longrightarrow> snd ` set given = set (take n vs)"
proof -
  assume a: "read_arrays n cs vs = Inr given"
  then have len: "n \<le> length cs" "n \<le> length vs"
    and g: "given = zip (map int (take n cs)) (take n vs)"
    by (auto simp: read_arrays_def split: if_splits)
  have "map snd given = take n vs" unfolding g using len by (rule map_snd_zip_take)
  then have "set (map snd given) = set (take n vs)" by simp
  then show ?thesis by simp
qed

lemma add_row_rejects_non_finite:
  assumes "\<exists>v \<in> set (take n_cols values). \<not> is_finite v"
  shows "isl (add_row M row n_cols col_indices values elide_zero_values)"
proof (cases "row < m_size M")
  case False
  then show ?thesis by (simp add: add_row_def)
next
  case row: True
  from assms obtain v where v: "v \<in> set (take n_cols values)" "\<not> is_finite v" by blast
  have pos: "n_cols \<noteq> 0"
  proof
    assume "n_cols = 0"
    then show False using v(1) by simp
  qed
  show ?thesis
  proof (cases "read_arrays n_cols col_indices values")
    case (Inl e)
    show ?thesis
    proof (cases elide_zero_values)
      case False
      then show ?thesis using row Inl pos by (simp add: add_row_def Let_def)
    next
      case True
      show ?thesis
      proof (cases "n_cols \<le> length values")
        case False
        then show ?thesis using row True by (simp add: add_row_def Let_def)
      next
        case len: True
        have "count_list (take n_cols values) (Finite 0) \<noteq> n_cols"
        proof
          assume "count_list (take n_cols values) (Finite 0) = n_cols"
          then have "count_list (take n_cols values) (Finite 0) = length (take n_cols values)"
            using len by simp
          from count_list_length [OF this] v show False by auto
        qed
        then show ?thesis using row True len Inl by (simp add: add_row_def Let_def)
      qed
    qed
  next
    case (Inr given)
    from read_arrays_values [OF Inr] v have bad: "\<exists>x \<in> set given. \<not> is_finite (snd x)"
      by force
    have len: "n_cols \<le> length values" using Inr by (auto simp: read_arrays_def split: if_splits)
    show ?thesis
    proof (cases elide_zero_values)
      case False
      obtain e where "add_all (n_size (resume_if_filled M)) given = Inl e"
        using add_all_rejects [OF bad, of "n_size (resume_if_filled M)"]
        by (cases "add_all (n_size (resume_if_filled M)) given") simp_all
      then show ?thesis
        using row Inr pos False by (simp add: add_row_def Let_def)
    next
      case True
      have "count_list (take n_cols values) (Finite 0) \<noteq> n_cols"
      proof
        assume "count_list (take n_cols values) (Finite 0) = n_cols"
        then have "count_list (take n_cols values) (Finite 0) = length (take n_cols values)"
          using len by simp
        from count_list_length [OF this] v show False by auto
      qed
      moreover obtain e where
        "add_elide (n_size (resume_if_filled M))
           (count_list (take n_cols values) (Finite 0)) 0 given = Inl e"
        using add_elide_rejects [OF bad, of "n_size (resume_if_filled M)"
                "count_list (take n_cols values) (Finite 0)" 0]
        by (cases "add_elide (n_size (resume_if_filled M))
                     (count_list (take n_cols values) (Finite 0)) 0 given") simp_all
      ultimately show ?thesis
        using row True len Inr by (simp add: add_row_def Let_def)
    qed
  qed
qed

lemma set_row_elide_rejects_non_finite:
  assumes "\<exists>v \<in> set (take n_cols values). \<not> is_finite v"
  shows "isl (set_row M row n_cols col_indices values True)"
proof (cases "read_arrays n_cols col_indices values")
  case (Inl e)
  then show ?thesis by (simp add: set_row_def)
next
  case (Inr given)
  from read_arrays_values [OF Inr] assms have "\<exists>x \<in> set given. \<not> is_finite (snd x)"
    by force
  then have "set_elide given = Inl ExcNumberNotFinite" by (simp add: set_elide_filter)
  then show ?thesis using Inr by (simp add: set_row_def)
qed

subsection \<open>Adding zeros only\<close>

lemma count_list_all: "(\<forall>v \<in> set xs. v = a) \<Longrightarrow> count_list xs a = length xs"
  by (induction xs) auto

text \<open>
  The claim C8 as it was stated fails on a compressed matrix: after the call the flag
  \<^verbatim>\<open>compressed\<close> is false.
\<close>

theorem add_row_all_zero_counterexample:
  "compressed (compress (SparseMatrix_m_n 1 1 1))
   \<and> map_sum id compressed (add_row (compress (SparseMatrix_m_n 1 1 1)) 0 1 [0] [Finite 0] True)
       = Inr False"
proof -
  have "(0::nat) < m_size (compress (SparseMatrix_m_n 1 1 1))"
    by (simp add: m_size_compress m_size_SparseMatrix_m_n)
  then show ?thesis
    by (simp add: add_row_def resume_if_filled_eq) (simp add: compress_def)
qed

text \<open>
  Claim C8, amended. A call of \<^verbatim>\<open>add\<close> that elides zeros, with a row in range and
  every value zero, returns and leaves the stored entries, the structure and the maps of
  the matrix as they were. The fill state is editable afterwards: a matrix that was
  compressed or fill-complete has been resumed, so it is not the matrix it was, and a
  matrix that was editable is unchanged.
\<close>

theorem add_row_all_zero:
  assumes "row < m_size M" and "n_cols \<le> length values"
    and "\<forall>v \<in> set (take n_cols values). v = Finite 0"
  shows "\<exists>M'. add_row M row n_cols col_indices values True = Inr M'
           \<and> entries (matrix M') = entries (matrix M)
           \<and> structure_of (matrix M') = structure_of (matrix M)
           \<and> row_map (matrix M') = row_map (matrix M)
           \<and> col_map (matrix M') = col_map (matrix M)
           \<and> column_space_map M' = column_space_map M
           \<and> compressed M' = False \<and> \<not> isFillComplete (matrix M')
           \<and> (if compressed M \<or> isFillComplete (matrix M) then M' \<noteq> M else M' = M)"
proof -
  have "count_list (take n_cols values) (Finite 0) = n_cols"
    using assms(2,3) count_list_all [of "take n_cols values" "Finite 0"] by simp
  then have "add_row M row n_cols col_indices values True = Inr (resume_if_filled M)"
    using assms(1,2) by (simp add: add_row_def Let_def)
  moreover have "isFillComplete (matrix M) \<Longrightarrow>
      M\<lparr>matrix := resumeFill (matrix M), compressed := False\<rparr> \<noteq> M"
    by (metis (no_types, lifting) isFillComplete_def resumeFill_def
        crs_matrix.select_convs(5) crs_matrix.surjective crs_matrix.update_convs(5)
        sparse_matrix.select_convs(2) sparse_matrix.surjective sparse_matrix.update_convs(2,3))
  moreover have "compressed M \<Longrightarrow>
      M\<lparr>matrix := resumeFill (matrix M), compressed := False\<rparr> \<noteq> M"
    by (metis sparse_matrix.select_convs(3) sparse_matrix.surjective sparse_matrix.update_convs(3))
  ultimately show ?thesis
    by (auto simp: resume_if_filled_def structure_of_def resumeFill_def isFillComplete_def)
qed

theorem add_row_all_zero_witness:
  "\<exists>M'. add_row finalized_example 1 2 [0, 1] [Finite 0, Finite 0] True = Inr M'
      \<and> entries (matrix M') = [(0, 0, Finite 5)]
      \<and> compressed M' = False \<and> \<not> isFillComplete (matrix M') \<and> M' \<noteq> finalized_example"
proof -
  have "(1::nat) < m_size finalized_example"
    by (simp add: m_size_def finalized_example_facts contiguous_map_def)
  moreover have "compressed finalized_example"
    by (simp add: finalized_example_def compress_def)
  ultimately show ?thesis
    using add_row_all_zero [of 1 finalized_example 2 "[Finite 0, Finite 0]" "[0, 1]"]
    by (auto simp: finalized_example_facts)
qed

text \<open>
  The assertion of line 999 bounds the counter of the kept entries by the number of zero
  entries, not by the number of kept ones: a call that elides zeros and keeps at least as
  many values as it drops fails there.
\<close>

lemma add_row_elide_one_value:
  "add_row (SparseMatrix_m_n 1 1 1) 0 1 [0] [Finite 1] True = Inl ExcIndexRange"
  by (simp add: add_row_def m_size_def n_size_def read_arrays_def resume_if_filled_def
        isFillComplete_def SparseMatrix_m_n_def contiguous_map_def)

subsection \<open>Multiplying\<close>

text \<open>
  What the spec asks of a multiplication: the vectors are two objects, the matrix is
  fill-complete, the source lies on the domain map and the destination on the range map,
  or the other way round for the transpose.
\<close>

definition multiply_preconditions ::
  "sparse_matrix \<Rightarrow> vector_store \<Rightarrow> nat \<Rightarrow> nat \<Rightarrow> ETransp \<Rightarrow> bool" where
  "multiply_preconditions M h dst src mode =
     (src \<noteq> dst \<and>
      (case fill (matrix M) of
         FillActive \<Rightarrow> False
       | FillComplete dmap rmap \<Rightarrow>
           (case mode of
              NO_TRANS \<Rightarrow> vec_map (h src) = dmap \<and> vec_map (h dst) = rmap
            | TRANS \<Rightarrow> vec_map (h dst) = dmap \<and> vec_map (h src) = rmap)))"

lemma nmul_one: "nmul (Finite 1) x = x"
  by (cases x) simp_all

lemma map_nmul_one: "map (nmul (Finite 1)) xs = xs"
  by (induction xs) (simp_all add: nmul_one)

lemma tpetra_apply_overwrite:
  "tpetra_apply A X Y mode (Finite 1) (Finite 0) = Y\<lparr>vec_vals := matrix_vector_product A X mode\<rparr>"
  by (simp add: tpetra_apply_def map_nmul_one)

lemma tpetra_apply_accumulate:
  "tpetra_apply A X Y mode (Finite 1) (Finite 1)
     = Y\<lparr>vec_vals := map2 nadd (vec_vals Y) (matrix_vector_product A X mode)\<rparr>"
  by (simp add: tpetra_apply_def nmul_one)

text \<open>
  Claim C3. Each of the four multiplications fails when its preconditions do not hold:
  when source and destination are the same object, when the matrix is not fill-complete,
  or when a vector is not on the map it has to be on, where \<^verbatim>\<open>vmult\<close> and
  \<^verbatim>\<open>vmult_add\<close> want the source on the domain map and the destination on the range
  map, and \<^verbatim>\<open>Tvmult\<close> and \<^verbatim>\<open>Tvmult_add\<close> the reverse. When they hold, the plain
  variants overwrite the destination with the matrix_vector_product and the adding variants add the
  matrix_vector_product to it, and nothing else in the store changes.
\<close>

theorem multiplications:
  "(\<not> multiply_preconditions M h dst src NO_TRANS \<longrightarrow>
      isl (vmult M h dst src) \<and> isl (vmult_add M h dst src))
   \<and> (\<not> multiply_preconditions M h dst src TRANS \<longrightarrow>
      isl (Tvmult M h dst src) \<and> isl (Tvmult_add M h dst src))
   \<and> (multiply_preconditions M h dst src NO_TRANS \<longrightarrow>
      vmult M h dst src
        = Inr (h(dst := (h dst)\<lparr>vec_vals := matrix_vector_product (matrix M) (h src) NO_TRANS\<rparr>))
      \<and> vmult_add M h dst src
        = Inr (h(dst := (h dst)\<lparr>vec_vals :=
                 map2 nadd (vec_vals (h dst)) (matrix_vector_product (matrix M) (h src) NO_TRANS)\<rparr>)))
   \<and> (multiply_preconditions M h dst src TRANS \<longrightarrow>
      Tvmult M h dst src
        = Inr (h(dst := (h dst)\<lparr>vec_vals := matrix_vector_product (matrix M) (h src) TRANS\<rparr>))
      \<and> Tvmult_add M h dst src
        = Inr (h(dst := (h dst)\<lparr>vec_vals :=
                 map2 nadd (vec_vals (h dst)) (matrix_vector_product (matrix M) (h src) TRANS)\<rparr>)))"
  by (cases "fill (matrix M)")
     (simp_all add: multiply_preconditions_def vmult_def vmult_add_def Tvmult_def
        Tvmult_add_def isSameAs_def tpetra_apply_overwrite tpetra_apply_accumulate)

lemma mult_example_facts:
  "fill (matrix mult_example)
     = FillComplete (contiguous_map 2 MPI_COMM_SELF) (contiguous_map 2 MPI_COMM_SELF)"
  "entries (matrix mult_example) = [(0, 1, Finite 7)]"
  by (simp_all add: mult_example_def compress_def SparseMatrix_m_n_def insertGlobalValues_def
        fillComplete_def)

lemma my_gids_two: "my_gids (contiguous_map 2 MPI_COMM_SELF) = [0, 1]"
  by (simp add: contiguous_map_def upt_rec)

theorem multiplications_witness:
  "map_sum id (\<lambda>h'. vec_vals (h' 11)) (vmult mult_example example_store 11 10)
     = Inr [Finite 21, Finite 0]
   \<and> map_sum id (\<lambda>h'. vec_vals (h' 11)) (vmult_add mult_example example_store 11 10)
     = Inr [Finite 31, Finite 20]
   \<and> map_sum id (\<lambda>h'. vec_vals (h' 11)) (Tvmult mult_example example_store 11 10)
     = Inr [Finite 0, Finite 14]
   \<and> map_sum id (\<lambda>h'. vec_vals (h' 11)) (Tvmult_add mult_example example_store 11 10)
     = Inr [Finite 10, Finite 34]
   \<and> isl (vmult mult_example example_store 11 11)
   \<and> isl (Tvmult_add editable_example example_store 11 10)"
proof -
  have pre: "multiply_preconditions mult_example example_store 11 10 NO_TRANS"
    "multiply_preconditions mult_example example_store 11 10 TRANS"
    by (simp_all add: multiply_preconditions_def mult_example_facts example_store_def)
  have npre: "\<not> multiply_preconditions mult_example example_store 11 11 NO_TRANS"
    "\<not> multiply_preconditions editable_example example_store 11 10 TRANS"
    by (simp_all add: multiply_preconditions_def editable_example_def SparseMatrix_m_n_def
          insertGlobalValues_def)
  have p: "matrix_vector_product (matrix mult_example) (example_store 10) NO_TRANS = [Finite 21, Finite 0]"
    "matrix_vector_product (matrix mult_example) (example_store 10) TRANS = [Finite 0, Finite 14]"
    by (simp_all add: matrix_vector_product_def mult_example_facts my_gids_two nsum_def x_at_def
          example_store_def)
  have d: "vec_vals (example_store 11) = [Finite 10, Finite 20]"
    by (simp add: example_store_def)
  show ?thesis
    using multiplications [of mult_example example_store 11 10]
      multiplications [of mult_example example_store 11 11]
      multiplications [of editable_example example_store 11 10]
      pre npre
    by (simp add: p d)
qed

subsection \<open>Copying the values of a reference matrix\<close>

text \<open>
  An entry that comes from the reference matrix and passes the drop tolerance.
\<close>

definition from_reference :: "dealii_sparse_matrix \<Rightarrow> number \<Rightarrow> nat \<times> number \<Rightarrow> bool" where
  "from_reference A drop_tolerance x =
     (greater_than (fabs (snd x)) drop_tolerance
      \<and> (\<exists>k. value_at A k = Inr (snd x) \<and> column (dsm_cols A) k = Inr (fst x)))"

lemma copy_entry_cases:
  assumes "copy_entry A tol mrl it out = Inr out1"
  shows "(out1 = out \<and> (\<exists>v. value_at A it = Inr v \<and> \<not> greater_than (fabs v) tol))
         \<or> (\<exists>c v. out1 = out @ [(c, v)] \<and> greater_than (fabs v) tol
                \<and> value_at A it = Inr v \<and> column (dsm_cols A) it = Inr c
                \<and> length out < mrl)"
  using assms
  by (auto simp: copy_entry_def store_def split: sum.splits if_splits)

lemma copy_entry_extends:
  assumes "copy_entry A tol mrl it out = Inr out1"
  shows "\<exists>added. out1 = out @ added \<and> (\<forall>x \<in> set added. from_reference A tol x)
           \<and> length out1 \<le> max mrl (length out)"
  using copy_entry_cases [OF assms]
  by (auto simp: from_reference_def)

lemma walk_extends:
  "walk sp A tol mrl es ei sel it out = Inr res \<Longrightarrow>
   \<exists>added. res = out @ added \<and> (\<forall>x \<in> set added. from_reference A tol x)
     \<and> length res \<le> max mrl (length out)"
proof (induction sp A tol mrl es ei sel it out rule: walk.induct)
  case (1 sp A tol mrl es ei sel it out)
  show ?case
  proof (cases "it \<noteq> ei \<and> sel \<noteq> es")
    case False
    then have "res = out" using "1.prems" by (auto simp: walk.simps)
    then show ?thesis by simp
  next
    case True
    show ?thesis
    proof (cases "skip_select sp A es it sel")
      case (Inl e)
      then show ?thesis using "1.prems" True by (simp add: walk.simps)
    next
      case sel1: (Inr sel1)
      show ?thesis
      proof (cases "skip_it sp A ei sel1 it")
        case (Inl e)
        then show ?thesis using "1.prems" True sel1 by (simp add: walk.simps)
      next
        case it1: (Inr it1)
        show ?thesis
        proof (cases "it1 = ei")
          case True
          then have "res = out" using "1.prems" \<open>it \<noteq> ei \<and> sel \<noteq> es\<close> sel1 it1
            by (simp add: walk.simps)
          then show ?thesis by simp
        next
          case ne: False
          show ?thesis
          proof (cases "copy_entry A tol mrl it1 out")
            case (Inl e)
            then show ?thesis using "1.prems" True sel1 it1 ne by (simp add: walk.simps)
          next
            case out1: (Inr out1)
            have rec: "walk sp A tol mrl es ei (sel1 + 1) (it1 + 1) out1 = Inr res"
              using "1.prems" True sel1 it1 ne out1 by (simp add: walk.simps)
            from "1.IH" [OF True sel1 it1 ne out1 rec]
            obtain added where a: "res = out1 @ added"
              "\<forall>x \<in> set added. from_reference A tol x"
              "length res \<le> max mrl (length out1)" by blast
            from copy_entry_extends [OF out1]
            obtain added1 where b: "out1 = out @ added1"
              "\<forall>x \<in> set added1. from_reference A tol x"
              "length out1 \<le> max mrl (length out)" by blast
            have "res = out @ (added1 @ added)" using a(1) b(1) by simp
            moreover have "\<forall>x \<in> set (added1 @ added). from_reference A tol x"
              using a(2) b(2) by auto
            moreover have "length res \<le> max mrl (length out)" using a(3) b(3) by simp
            ultimately show ?thesis by blast
          qed
        qed
      qed
    qed
  qed
qed

lemma copy_row_walks:
  assumes "copy_row sp A tol mrl row = Inr out"
  shows "\<exists>sel it es ei.
           sp_begin sp row = Inr sel \<and> sp_begin (dsm_cols A) row = Inr it
           \<and> sp_end sp row = Inr es \<and> sp_end (dsm_cols A) row = Inr ei
           \<and> (if sp_rows sp = sp_cols sp
               then column (dsm_cols A) it = Inr row
                  \<and> (\<exists>out0. copy_entry A tol mrl it [] = Inr out0
                        \<and> walk sp A tol mrl es ei (sel + 1) (it + 1) out0 = Inr out)
               else walk sp A tol mrl es ei sel it [] = Inr out)"
  using assms
  by (simp add: copy_row_def split: sum.splits if_splits)

text \<open>
  Two things hold of every row. When the walk returns, every entry it hands to
  \<^verbatim>\<open>set\<close> is an entry of the reference matrix whose magnitude is strictly greater than
  the drop tolerance, so a value at or below the tolerance is never stored, and the
  entries fit the buffers. For a square pattern the first entry of the row in the
  reference matrix is its diagonal entry, and it is the first entry handed on when it
  passes the tolerance.
\<close>

lemma copy_row_drops_small_values:
  assumes "copy_row sp A drop_tolerance maximum_row_length row = Inr out"
  shows "(\<forall>x \<in> set out. greater_than (fabs (snd x)) drop_tolerance
            \<and> (\<exists>k. value_at A k = Inr (snd x) \<and> column (dsm_cols A) k = Inr (fst x)))
         \<and> length out \<le> maximum_row_length
         \<and> (sp_rows sp = sp_cols sp \<longrightarrow>
              (\<exists>it v. sp_begin (dsm_cols A) row = Inr it
                 \<and> column (dsm_cols A) it = Inr row \<and> value_at A it = Inr v
                 \<and> (greater_than (fabs v) drop_tolerance \<longrightarrow> take 1 out = [(row, v)])))"
proof -
  from copy_row_walks [OF assms] obtain sel it es ei where
    b: "sp_begin (dsm_cols A) row = Inr it"
    and w: "if sp_rows sp = sp_cols sp
            then column (dsm_cols A) it = Inr row
               \<and> (\<exists>out0. copy_entry A drop_tolerance maximum_row_length it [] = Inr out0
                     \<and> walk sp A drop_tolerance maximum_row_length es ei (sel + 1) (it + 1) out0
                         = Inr out)
            else walk sp A drop_tolerance maximum_row_length es ei sel it [] = Inr out"
    by blast
  show ?thesis
  proof (cases "sp_rows sp = sp_cols sp")
    case False
    with w have "walk sp A drop_tolerance maximum_row_length es ei sel it [] = Inr out"
      by simp
    from walk_extends [OF this] False show ?thesis
      by (auto simp: from_reference_def)
  next
    case True
    with w obtain out0 where
      c: "column (dsm_cols A) it = Inr row"
      and e: "copy_entry A drop_tolerance maximum_row_length it [] = Inr out0"
      and r: "walk sp A drop_tolerance maximum_row_length es ei (sel + 1) (it + 1) out0 = Inr out"
      by auto
    from walk_extends [OF r] obtain added where
      a: "out = out0 @ added" "\<forall>x \<in> set added. from_reference A drop_tolerance x"
         "length out \<le> max maximum_row_length (length out0)" by blast
    from copy_entry_cases [OF e] c have
      d: "(out0 = [] \<and> (\<exists>v. value_at A it = Inr v \<and> \<not> greater_than (fabs v) drop_tolerance))
          \<or> (\<exists>v. out0 = [(row, v)] \<and> greater_than (fabs v) drop_tolerance
                \<and> value_at A it = Inr v \<and> 0 < maximum_row_length)"
      by auto
    have 1: "\<forall>x \<in> set out. greater_than (fabs (snd x)) drop_tolerance
            \<and> (\<exists>k. value_at A k = Inr (snd x) \<and> column (dsm_cols A) k = Inr (fst x))"
      using a d c by (auto simp: from_reference_def)
    have 2: "length out \<le> maximum_row_length" using a(3) d by auto
    have 3: "\<exists>it v. sp_begin (dsm_cols A) row = Inr it
                 \<and> column (dsm_cols A) it = Inr row \<and> value_at A it = Inr v
                 \<and> (greater_than (fabs v) drop_tolerance \<longrightarrow> take 1 out = [(row, v)])"
      using a(1) b c d by auto
    from 1 2 3 show ?thesis by blast
  qed
qed

text \<open>
  When the target sparsity is the pattern of the reference matrix itself, the two
  iterators move in lockstep, and the walk keeps exactly the entries of the row above the
  tolerance, in the order of the row.
\<close>

lemma skip_select_same:
  "column (dsm_cols A) k = Inr c \<Longrightarrow> skip_select (dsm_cols A) A e k k = Inr k"
  by (subst skip_select.simps) simp

lemma skip_it_same:
  "column (dsm_cols A) k = Inr c \<Longrightarrow> skip_it (dsm_cols A) A e k k = Inr k"
  by (subst skip_it.simps) simp

definition kept_of_row :: "dealii_sparse_matrix \<Rightarrow> number \<Rightarrow> nat \<Rightarrow> nat \<Rightarrow> (nat \<times> number) list" where
  "kept_of_row A drop_tolerance b e =
     filter (\<lambda>x. greater_than (fabs (snd x)) drop_tolerance)
       (map (\<lambda>k. (colnums (dsm_cols A) ! k, val A ! k)) [b..<e])"

lemma kept_of_row_step:
  "it < e \<Longrightarrow>
   kept_of_row A tol it e =
     (if greater_than (fabs (val A ! it)) tol then [(colnums (dsm_cols A) ! it, val A ! it)] else [])
       @ kept_of_row A tol (Suc it) e"
  by (simp add: kept_of_row_def upt_conv_Cons)

lemma length_kept_of_row: "length (kept_of_row A tol b e) \<le> e - b"
proof -
  have "length (kept_of_row A tol b e) \<le> length (map (\<lambda>k. (colnums (dsm_cols A) ! k, val A ! k)) [b..<e])"
    unfolding kept_of_row_def by (rule length_filter_le)
  then show ?thesis by simp
qed

lemma walk_same_pattern:
  assumes "read_at (rowstart (dsm_cols A)) (sp_rows (dsm_cols A)) = Inr n_entries"
    and "e \<le> n_entries" and "n_entries \<le> length (colnums (dsm_cols A))"
    and "e \<le> length (val A)"
  shows "it \<le> e \<Longrightarrow> e - it = d \<Longrightarrow> length out + d \<le> mrl \<Longrightarrow>
         walk (dsm_cols A) A tol mrl e e it it out = Inr (out @ kept_of_row A tol it e)"
proof (induction d arbitrary: it out)
  case 0
  then have "it = e" by simp
  then show ?case by (simp add: walk.simps kept_of_row_def)
next
  case (Suc d)
  then have lt: "it < e" by simp
  have col: "column (dsm_cols A) it = Inr (colnums (dsm_cols A) ! it)"
    using lt assms by (simp add: column_def read_at_def)
  have v: "value_at A it = Inr (val A ! it)"
    using lt assms by (simp add: value_at_def)
  define out1 where
    "out1 = out @ (if greater_than (fabs (val A ! it)) tol
                   then [(colnums (dsm_cols A) ! it, val A ! it)] else [])"
  have ce: "copy_entry A tol mrl it out = Inr out1"
    using Suc.prems(3) by (simp add: copy_entry_def v col store_def out1_def)
  have len: "length out1 + d \<le> mrl" using Suc.prems(3) by (simp add: out1_def)
  have rec: "walk (dsm_cols A) A tol mrl e e (it + 1) (it + 1) out1
               = Inr (out1 @ kept_of_row A tol (it + 1) e)"
    using Suc.IH [of "it + 1" out1] lt Suc.prems(2) len by simp
  have "walk (dsm_cols A) A tol mrl e e it it out
          = walk (dsm_cols A) A tol mrl e e (it + 1) (it + 1) out1"
    using lt by (subst walk.simps) (simp add: skip_select_same [OF col] skip_it_same [OF col] ce)
  then show ?case using rec kept_of_row_step [OF lt, of A tol] by (simp add: out1_def)
qed

lemma copy_row_same_pattern:
  assumes "row < sp_rows (dsm_cols A)"
    and "length (rowstart (dsm_cols A)) = sp_rows (dsm_cols A) + 1"
    and "rowstart (dsm_cols A) ! row \<le> rowstart (dsm_cols A) ! (row + 1)"
    and "rowstart (dsm_cols A) ! (row + 1) \<le> rowstart (dsm_cols A) ! sp_rows (dsm_cols A)"
    and "rowstart (dsm_cols A) ! sp_rows (dsm_cols A) \<le> length (colnums (dsm_cols A))"
    and "rowstart (dsm_cols A) ! (row + 1) \<le> length (val A)"
    and "rowstart (dsm_cols A) ! (row + 1) - rowstart (dsm_cols A) ! row \<le> maximum_row_length"
    and "sp_rows (dsm_cols A) = sp_cols (dsm_cols A) \<Longrightarrow>
           rowstart (dsm_cols A) ! row < rowstart (dsm_cols A) ! (row + 1)
           \<and> colnums (dsm_cols A) ! (rowstart (dsm_cols A) ! row) = row"
  shows "copy_row (dsm_cols A) A drop_tolerance maximum_row_length row
           = Inr (kept_of_row A drop_tolerance (rowstart (dsm_cols A) ! row)
                    (rowstart (dsm_cols A) ! (row + 1)))"
proof -
  let ?sp = "dsm_cols A"
  let ?b = "rowstart ?sp ! row"
  let ?e = "rowstart ?sp ! (row + 1)"
  have n: "read_at (rowstart ?sp) (sp_rows ?sp) = Inr (rowstart ?sp ! sp_rows ?sp)"
    using assms(2) by (simp add: read_at_def)
  have be: "sp_begin ?sp row = Inr ?b" "sp_end ?sp row = Inr ?e"
    using assms(1,2) by (simp_all add: sp_begin_def sp_end_def read_at_def)
  note w = walk_same_pattern [OF n assms(4) assms(5) assms(6)]
  show ?thesis
  proof (cases "sp_rows ?sp = sp_cols ?sp")
    case False
    have "walk ?sp A drop_tolerance maximum_row_length ?e ?e ?b ?b []
            = Inr ([] @ kept_of_row A drop_tolerance ?b ?e)"
      using assms(3,7) by (intro w) simp_all
    then show ?thesis using False be by (simp add: copy_row_def)
  next
    case True
    from assms(8) [OF True] have lt: "?b < ?e" and diag: "colnums ?sp ! ?b = row" by simp_all
    have col: "column ?sp ?b = Inr row"
      using lt assms(2,4,5) diag by (simp add: column_def read_at_def)
    have v: "value_at A ?b = Inr (val A ! ?b)"
      using lt assms(6) by (simp add: value_at_def)
    define out0 where
      "out0 = (if greater_than (fabs (val A ! ?b)) drop_tolerance then [(row, val A ! ?b)] else [])"
    have pos: "0 < maximum_row_length" using lt assms(7) by linarith
    have ce: "copy_entry A drop_tolerance maximum_row_length ?b [] = Inr out0"
      using pos by (simp add: copy_entry_def v col store_def out0_def)
    have "length out0 \<le> 1" by (simp add: out0_def)
    then have len0: "length out0 + (?e - (?b + 1)) \<le> maximum_row_length"
      using lt assms(7) by linarith
    have "walk ?sp A drop_tolerance maximum_row_length ?e ?e (?b + 1) (?b + 1) out0
            = Inr (out0 @ kept_of_row A drop_tolerance (?b + 1) ?e)"
      using lt len0 by (intro w [where d = "?e - (?b + 1)"]) simp_all
    moreover have "kept_of_row A drop_tolerance ?b ?e
                     = out0 @ kept_of_row A drop_tolerance (?b + 1) ?e"
      using kept_of_row_step [OF lt, of A drop_tolerance] diag by (simp add: out0_def)
    ultimately show ?thesis using True be col ce by (simp add: copy_row_def)
  qed
qed

lemma copy_row_same_pattern_example:
  "copy_row reference_pattern reference_matrix (Finite (1 / 2)) 3 1
     = Inr (kept_of_row reference_matrix (Finite (1 / 2)) 2 5)"
proof -
  have c: "dsm_cols reference_matrix = reference_pattern"
    by (simp add: reference_matrix_def)
  show ?thesis
    using copy_row_same_pattern [of 1 reference_matrix 3 "Finite (1 / 2)"]
    by (simp add: c) (simp add: reference_pattern_def reference_matrix_def)
qed

lemma copy_row_drops_small_values_example:
  "copy_row reference_pattern reference_matrix (Finite (1 / 2)) 3 1
     = Inr [(0, Finite (- 3)), (2, Finite 2)]
   \<and> greater_than (fabs (Finite (- 3))) (Finite (1 / 2))
   \<and> greater_than (fabs (Finite 2)) (Finite (1 / 2))
   \<and> value_at reference_matrix 2 = Inr (Finite (1 / 10))
   \<and> column (dsm_cols reference_matrix) 2 = Inr 1"
proof -
  have e: "copy_row reference_pattern reference_matrix (Finite (1 / 2)) 3 1
             = Inr [(0, Finite (- 3)), (2, Finite 2)]"
    by code_simp
  have d: "value_at reference_matrix 2 = Inr (Finite (1 / 10))"
    "column (dsm_cols reference_matrix) 2 = Inr 1"
    by (simp_all add: value_at_def column_def read_at_def reference_matrix_def
          reference_pattern_def)
  from copy_row_drops_small_values [OF e] e d show ?thesis by simp
qed

lemma copy_row_from_reference:
  assumes "copy_row sp A tol mrl row = Inr out"
  shows "\<forall>x \<in> set out. from_reference A tol x"
proof -
  from copy_row_walks [OF assms] obtain sel it es ei where
    w: "if sp_rows sp = sp_cols sp
        then column (dsm_cols A) it = Inr row
           \<and> (\<exists>out0. copy_entry A tol mrl it [] = Inr out0
                 \<and> walk sp A tol mrl es ei (sel + 1) (it + 1) out0 = Inr out)
        else walk sp A tol mrl es ei sel it [] = Inr out"
    by blast
  show ?thesis
  proof (cases "sp_rows sp = sp_cols sp")
    case False
    with w have "walk sp A tol mrl es ei sel it [] = Inr out" by simp
    from walk_extends [OF this] show ?thesis by auto
  next
    case True
    with w obtain out0 where
      e: "copy_entry A tol mrl it [] = Inr out0"
      and r: "walk sp A tol mrl es ei (sel + 1) (it + 1) out0 = Inr out"
      by auto
    from copy_entry_extends [OF e] have "\<forall>x \<in> set out0. from_reference A tol x" by auto
    with walk_extends [OF r] show ?thesis by auto
  qed
qed

text \<open>
  The whole call: after \<^verbatim>\<open>reinit\<close> from a reference matrix on its own sparsity pattern,
  with the values copied, every value the matrix stores is zero or is a value of the
  reference matrix, in its column, whose magnitude is strictly greater than the drop
  tolerance.
\<close>

definition copied_or_zero :: "dealii_sparse_matrix \<Rightarrow> number \<Rightarrow> int \<times> int \<times> number \<Rightarrow> bool" where
  "copied_or_zero A drop_tolerance e =
     (case e of (r, c, v) \<Rightarrow>
        v = Finite 0 \<or> (0 \<le> c \<and> from_reference A drop_tolerance (nat c, v)))"

lemma update_entry_pred:
  assumes "\<forall>e \<in> set es. Q e" and "\<And>old. Q (r, c, f old)"
  shows "\<forall>e \<in> set (update_entry f r c es). Q e"
  using assms(1)
proof (induction es)
  case Nil
  then show ?case by simp
next
  case (Cons e es)
  obtain r' c' v where e: "e = (r', c', v)" by (cases e)
  show ?case using Cons assms(2) by (auto simp: e)
qed

lemma fold_update_entry_pred:
  assumes "\<forall>x \<in> set cvs. \<forall>old. Q (r, fst x, g (snd x) old)"
  shows "\<forall>e \<in> set es. Q e \<Longrightarrow>
         \<forall>e \<in> set (fold (\<lambda>(c, v). update_entry (g v) r c) cvs es). Q e"
  using assms
proof (induction cvs arbitrary: es)
  case Nil
  then show ?case by simp
next
  case (Cons x cvs)
  obtain c v where x: "x = (c, v)" by (cases x)
  have "\<forall>e \<in> set (update_entry (g v) r c es). Q e"
    using Cons.prems by (intro update_entry_pred) (simp_all add: x)
  then show ?case using Cons.IH [of "update_entry (g v) r c es"] Cons.prems(2)
    by (simp add: x)
qed

lemma set_row_pred:
  assumes "set_row M row n_cols col_indices values False = Inr M1"
    and "\<forall>e \<in> set (entries (matrix M)). Q e"
    and "\<forall>x \<in> set (zip (map int (take n_cols col_indices)) (take n_cols values)).
           Q (int row, fst x, snd x)"
  shows "\<forall>e \<in> set (entries (matrix M1)). Q e"
proof -
  let ?given = "zip (map int (take n_cols col_indices)) (take n_cols values)"
  from assms(1) have
    M1: "matrix M1 = (if isStaticGraph (matrix M)
                      then replaceGlobalValues (resumeFill (matrix M)) (int row) ?given
                      else insertGlobalValues (resumeFill (matrix M)) (int row) ?given)"
    by (auto simp: set_row_def read_arrays_def Let_def resume_if_filled_eq isStaticGraph_def
          resumeFill_def split: if_splits)
  have old: "\<forall>e \<in> set (entries (resumeFill (matrix M))). Q e"
    using assms(2) by (simp add: resumeFill_def)
  have ins: "\<forall>e \<in> set (entries (insertGlobalValues (resumeFill (matrix M)) (int row) ?given)). Q e"
    using old assms(3) by (auto simp: insertGlobalValues_def)
  have rep: "\<forall>e \<in> set (entries (replaceGlobalValues (resumeFill (matrix M)) (int row) ?given)). Q e"
    using fold_update_entry_pred [of ?given Q "int row" "\<lambda>v old. v", OF _ old] assms(3)
    by (simp add: replaceGlobalValues_def)
  show ?thesis using M1 ins rep by simp
qed

lemma zip_of_out:
  "zip (map int (take (length out) (map fst out))) (take (length out) (map snd out))
     = map (\<lambda>x. (int (fst x), snd x)) out"
  by (induction out) simp_all

lemma copy_rows_pred:
  "copy_rows sp A tol mrl rp rows M = Inr M1 \<Longrightarrow>
   \<forall>e \<in> set (entries (matrix M)). copied_or_zero A tol e \<Longrightarrow>
   \<forall>e \<in> set (entries (matrix M1)). copied_or_zero A tol e"
proof (induction rows arbitrary: M)
  case Nil
  then show ?case by simp
next
  case (Cons row rows)
  show ?case
  proof (cases "is_element rp row")
    case False
    then show ?thesis using Cons by simp
  next
    case True
    from Cons.prems(1) True obtain out M2 where
      o: "copy_row sp A tol mrl row = Inr out"
      and s: "set_row M row (length out) (map fst out) (map snd out) False = Inr M2"
      and r: "copy_rows sp A tol mrl rp rows M2 = Inr M1"
      by (auto split: sum.splits)
    from copy_row_from_reference [OF o]
    have "\<forall>x \<in> set out. from_reference A tol x" .
    then have "\<forall>x \<in> set (map (\<lambda>x. (int (fst x), snd x)) out).
                 copied_or_zero A tol (int row, fst x, snd x)"
      by (simp add: copied_or_zero_def)
    then have "\<forall>e \<in> set (entries (matrix M2)). copied_or_zero A tol e"
      using set_row_pred [OF s Cons.prems(2)] by (simp only: zip_of_out)
    then show ?thesis using Cons.IH [OF r] by simp
  qed
qed

lemma reinit_sparsity_zero:
  assumes "reinit_sparsity rp cp sp comm = Inr M"
  shows "\<forall>e \<in> set (entries (matrix M)). snd (snd e) = Finite 0"
  using assms
  by (auto simp: reinit_sparsity_def reinit_matrix_def Let_def matrix_from_graph_def
        compress_def fillComplete_def
        split: sum.splits if_splits option.splits prod.splits fill_state.splits)

lemma reinit_stores_only_large_values:
  assumes "reinit M rp cp A comm drop_tolerance True None = Inr M1"
  shows "\<forall>e \<in> set (entries (matrix M1)). copied_or_zero A drop_tolerance e"
proof -
  from assms obtain M2 M3 where
    a: "reinit_sparsity rp cp (dsm_cols A) comm = Inr M2"
    and b: "copy_rows (dsm_cols A) A drop_tolerance (getLocalMaxNumRowEntries (matrix M2)) rp
              [0..<sp_rows (dsm_cols A)] M2 = Inr M3"
    and c: "M1 = compress M3"
    by (auto simp: reinit_def Let_def split: sum.splits if_splits)
  have "\<forall>e \<in> set (entries (matrix M2)). copied_or_zero A drop_tolerance e"
    using reinit_sparsity_zero [OF a] by (auto simp: copied_or_zero_def)
  from copy_rows_pred [OF b this]
  show ?thesis by (simp add: c compress_def fillComplete_def)
qed

text \<open>
  Claim C9. The walk is meant to go through the row of the reference matrix and the row
  of the target sparsity together, so that a value is copied where both have the column.
  It does not when the two rows differ. Each inner loop reads the column at its iterator
  before it tests the iterator against the end of the row, and after the two loops the
  entry of the reference matrix is copied without a comparison of the two columns. In row
  \<open>0\<close> of the example the target iterator runs to the end of its row, and the entry at
  column \<open>2\<close>, which the target row does not have, is handed to \<^verbatim>\<open>set\<close>; on a matrix
  that owns its graph it is inserted at \<open>(0, 2)\<close>. In the last row the same run reads
  through an iterator past the end of the pattern, and the call fails.
\<close>

theorem copy_row_leaves_target_row:
  "copy_row target_pattern wider_matrix (Finite (1 / 2)) 3 0
     = Inr [(0, Finite 4), (2, Finite 9)]
   \<and> column_numbers target_pattern 0 2 = Inr [0, 1]
   \<and> map_sum id (structure_of \<circ> matrix)
        (copy_rows target_pattern wider_matrix (Finite (1 / 2)) 3 (complete_index_set 3) [0]
           (SparseMatrix_m_n 3 3 3))
       = Inr [(0, 0), (0, 2)]
   \<and> copy_row target_pattern wider_matrix (Finite (1 / 2)) 3 2 = Inl ExcInvalidIterator"
  by code_simp

end
